theory Spec2Isabelle
  imports Complex_Main "HOL-Library.Multiset"
begin

section \<open>Python exceptions\<close>

text \<open>
  The exceptions the two source files can raise, as values.  A computation that may
  raise returns \<open>error + 'a\<close>, with \<open>Inl\<close> for the exception that leaves the function.
  \<open>ParseError\<close> stands for whatever \<^verbatim>\<open>ET.parse\<close> raises, \<open>CollaboratorError\<close> for
  whatever an external collaborator of \<^verbatim>\<open>app.py\<close> (the simulator, the attribute
  patcher, the file copy) raises.  \<open>NonFinite\<close> is explained with \<open>py_float\<close> below.
\<close>

datatype error = TypeError | ValueError | IndexError | ParseError | NonFinite | CollaboratorError

section \<open>The sweep driver of app.py\<close>

text \<open>
  Python floats are modelled by \<^typ>\<open>real\<close>: rounding, infinities and NaN are outside
  the model.  Python's unbounded integers are \<^typ>\<open>int\<close>.
\<close>

subsection \<open>Parameter metadata (app.py, lines 21-52)\<close>

text \<open>The fields \<^verbatim>\<open>unit\<close> and \<^verbatim>\<open>desc\<close> are display text only and are left out.\<close>

record param_info =
  default_val :: real
  conversion :: real

definition PARAM_INFO :: "(string \<times> param_info) list" where
  "PARAM_INFO =
    [(''cell wall thickness'', \<lparr>default_val = 1.5, conversion = 1\<rparr>),
     (''membrane permeability'', \<lparr>default_val = 3.0, conversion = 1 / 10 ^ 5\<rparr>),
     (''AQP contribution to cell membrane permeability'',
        \<lparr>default_val = 4.3, conversion = 1 / 10 ^ 4\<rparr>),
     (''cell wall conductance'', \<lparr>default_val = 2.4, conversion = 1 / 10 ^ 4\<rparr>),
     (''plasmodesmata conductance'', \<lparr>default_val = 5.3, conversion = 1 / 10 ^ 12\<rparr>)]"

subsection \<open>Value generation (app.py, lines 121-155)\<close>

text \<open>
  \<^verbatim>\<open>np.linspace(start, stop, num)\<close> with its default \<^verbatim>\<open>endpoint=True\<close>: the
  samples \<open>i * step + start\<close> for \<open>i < num\<close>, where \<open>step = (stop - start) / (num - 1)\<close>
  (when the step is zero numpy divides first and multiplies by the difference
  afterwards), and the last sample overwritten by \<open>stop\<close> when \<open>num > 1\<close>.
\<close>

definition linspace :: "real \<Rightarrow> real \<Rightarrow> nat \<Rightarrow> real list" where
  "linspace start stop num =
     (let dv = num - 1;
          delta = stop - start;
          y0 = map real [0..<num];
          y1 = (if dv > 0
                then (let step = delta / real dv
                      in if step = 0 then map (\<lambda>i. i / real dv * delta) y0
                         else map (\<lambda>i. i * step) y0)
                else map (\<lambda>i. i * delta) y0);
          y2 = map (\<lambda>t. t + start) y1
      in if num > 1 then y2[num - 1 := stop] else y2)"

text \<open>
  What the user enters in the selected mode: the number typed into
  \<^verbatim>\<open>st.number_input\<close> in mode "Single value", or the pair chosen on the range
  \<^verbatim>\<open>st.slider\<close> otherwise.
\<close>

datatype user_input =
  Single_value (entered: real)
| Range_mode (selected_min: real) (selected_max: real)

definition min_limit :: "param_info \<Rightarrow> real" where
  "min_limit info = default_val info / 10"

definition max_limit :: "param_info \<Rightarrow> real" where
  "max_limit info = default_val info * 10"

text \<open>
  The contract of the range slider of streamlit: the pair it returns lies between the
  \<^verbatim>\<open>min_value\<close> and \<^verbatim>\<open>max_value\<close> it was created with, lower end first.
\<close>

definition slider :: "real \<Rightarrow> real \<Rightarrow> real \<times> real \<Rightarrow> bool" where
  "slider min_value max_value sel \<longleftrightarrow>
     min_value \<le> fst sel \<and> fst sel \<le> snd sel \<and> snd sel \<le> max_value"

text \<open>
  The list \<^verbatim>\<open>values\<close> of app.py.  \<open>None\<close> is a selection the slider cannot
  return, so no run of the program has it.
\<close>

fun param_values :: "param_info \<Rightarrow> user_input \<Rightarrow> real list option" where
  "param_values info (Single_value v) = Some [v * conversion info]"
| "param_values info (Range_mode lo hi) =
     (if slider (min_limit info) (max_limit info) (lo, hi)
      then Some (linspace (lo * conversion info) (hi * conversion info) 10)
      else None)"

subsection \<open>Collaborators\<close>

text \<open>
  \<^verbatim>\<open>src.mecha_function\<close> is not among the sources; its three functions, the file
  copy and the float formatting are parameters of the model.  \<open>'fs\<close> is the state
  of the files the collaborators read and write.
\<close>

datatype float_format = Fixed nat | Scientific nat

record 'fs collaborators =
  update_xml_attributes ::
    "string \<Rightarrow> string \<Rightarrow> string \<Rightarrow> (string \<times> string) list \<Rightarrow> 'fs \<Rightarrow> error + 'fs"
  mecha :: "'fs \<Rightarrow> error + (real list \<times> 'fs)"
  set_hydraulic_scenario :: "string \<Rightarrow> int list \<Rightarrow> 'fs \<Rightarrow> error + 'fs"
  shutil_copy :: "string \<Rightarrow> string \<Rightarrow> 'fs \<Rightarrow> error + 'fs"
  abspath :: "string \<Rightarrow> string"
  format_float :: "float_format \<Rightarrow> real \<Rightarrow> string"

definition GEOM_PATH_INIT :: string where
  "GEOM_PATH_INIT = ''./MECHA/Projects/granar/in/Default_Geometry.xml''"

definition HYDRAULICS_PATH_INIT :: string where
  "HYDRAULICS_PATH_INIT = ''./MECHA/Projects/granar/in/Default_Maize_Hydraulics.xml''"

definition GEOM_PATH :: string where
  "GEOM_PATH = ''./MECHA/Projects/granar/in/Geometry.xml''"

definition HYDRAULICS_PATH :: string where
  "HYDRAULICS_PATH = ''./MECHA/Projects/granar/in/Hydraulics.xml''"

definition GEOM_PATH_PRE :: string where
  "GEOM_PATH_PRE = ''./MECHA/Projects/granar/in/Preloaded_Geometry.xml''"

definition safe_copy :: "'fs collaborators \<Rightarrow> string \<Rightarrow> string \<Rightarrow> 'fs \<Rightarrow> error + 'fs" where
  "safe_copy E src dst fs =
     (if abspath E src = abspath E dst then Inr fs else shutil_copy E src dst fs)"

subsection \<open>The sweep (app.py, lines 163-193)\<close>

record sweep_result =
  parameter_value :: real
  kr :: real
  hydraulic_scenario :: int

text \<open>
  The state of the run: the files, the list \<^verbatim>\<open>results\<close>, and a trace with the
  vector each call of \<^verbatim>\<open>mecha()\<close> returned, in call order.  The trace is not in
  the program; it is there to count the calls and to name their outputs.
\<close>

record 'fs sweep_state =
  files :: 'fs
  results :: "sweep_result list"
  invocations :: "real list list"

text \<open>The \<^verbatim>\<open>if/elif\<close> chain of lines 179-188.\<close>

definition apply_parameter :: "'fs collaborators \<Rightarrow> string \<Rightarrow> real \<Rightarrow> 'fs \<Rightarrow> error + 'fs" where
  "apply_parameter E param v fs =
     (if param = ''cell wall thickness''
      then update_xml_attributes E GEOM_PATH ''thickness'' ''thickness''
             [(''value'', format_float E (Fixed 3) v)] fs
      else if param = ''membrane permeability''
      then update_xml_attributes E HYDRAULICS_PATH ''km'' ''km''
             [(''value'', format_float E (Fixed 6) v)] fs
      else if param = ''AQP contribution to cell membrane permeability''
      then update_xml_attributes E HYDRAULICS_PATH ''kAQPrange'' ''kAQP''
             [(''value'', format_float E (Fixed 6) v)] fs
      else if param = ''cell wall conductance''
      then update_xml_attributes E HYDRAULICS_PATH ''kwrange'' ''kw''
             [(''value'', format_float E (Fixed 6) v)] fs
      else if param = ''plasmodesmata conductance''
      then update_xml_attributes E HYDRAULICS_PATH ''Kplrange'' ''Kpl''
             [(''value'', format_float E (Scientific 3) v)] fs
      else Inr fs)"

text \<open>
  Lines 192-193: \<^verbatim>\<open>for i_sc, n_sc in enumerate(scenarios)\<close>, reading
  \<^verbatim>\<open>kr[i_sc]\<close>.  The second argument is the running index \<^verbatim>\<open>i_sc\<close>; an index
  past the end of the vector raises IndexError.
\<close>

fun scenario_records :: "real \<Rightarrow> real list \<Rightarrow> nat \<Rightarrow> int list \<Rightarrow> error + sweep_result list" where
  "scenario_records v krs i_sc [] = Inr []"
| "scenario_records v krs i_sc (n_sc # rest) =
     (if i_sc < length krs
      then (case scenario_records v krs (Suc i_sc) rest of
              Inl e \<Rightarrow> Inl e
            | Inr rs \<Rightarrow>
                Inr (\<lparr>parameter_value = v, kr = krs ! i_sc, hydraulic_scenario = n_sc\<rparr> # rs))
      else Inl IndexError)"

text \<open>The loop over \<^verbatim>\<open>values\<close>, lines 177-193.\<close>

fun sweep_loop ::
  "'fs collaborators \<Rightarrow> string \<Rightarrow> int list \<Rightarrow> real list \<Rightarrow> 'fs sweep_state \<Rightarrow> error + 'fs sweep_state"
where
  "sweep_loop E param scenarios [] s = Inr s"
| "sweep_loop E param scenarios (v # vs) s =
     (case apply_parameter E param v (files s) of
        Inl e \<Rightarrow> Inl e
      | Inr fs1 \<Rightarrow>
          (case mecha E fs1 of
             Inl e \<Rightarrow> Inl e
           | Inr (krs, fs2) \<Rightarrow>
               (case scenario_records v krs 0 scenarios of
                  Inl e \<Rightarrow> Inl e
                | Inr rs \<Rightarrow>
                    sweep_loop E param scenarios vs
                      \<lparr>files = fs2, results = results s @ rs,
                       invocations = invocations s @ [krs]\<rparr>)))"

text \<open>The handler of the run button, from the clean start to the end of the loop.\<close>

definition run_simulation ::
  "'fs collaborators \<Rightarrow> bool \<Rightarrow> string \<Rightarrow> int list \<Rightarrow> real list \<Rightarrow> 'fs \<Rightarrow> error + 'fs sweep_state"
where
  "run_simulation E use_preloaded param scenarios vals fs =
     (case safe_copy E (if use_preloaded then GEOM_PATH_PRE else GEOM_PATH_INIT) GEOM_PATH fs of
        Inl e \<Rightarrow> Inl e
      | Inr fs1 \<Rightarrow>
          (case safe_copy E HYDRAULICS_PATH_INIT HYDRAULICS_PATH fs1 of
             Inl e \<Rightarrow> Inl e
           | Inr fs2 \<Rightarrow>
               (case set_hydraulic_scenario E GEOM_PATH scenarios fs2 of
                  Inl e \<Rightarrow> Inl e
                | Inr fs3 \<Rightarrow>
                    sweep_loop E param scenarios vals
                      \<lparr>files = fs3, results = [], invocations = []\<rparr>)))"

text \<open>
  The clean start of lines 165-172: the two copies and the activation of the scenarios,
  before the loop.
\<close>

definition clean_start :: "'fs collaborators \<Rightarrow> bool \<Rightarrow> int list \<Rightarrow> 'fs \<Rightarrow> error + 'fs" where
  "clean_start E use_preloaded scenarios fs =
     (case safe_copy E (if use_preloaded then GEOM_PATH_PRE else GEOM_PATH_INIT) GEOM_PATH fs of
        Inl e \<Rightarrow> Inl e
      | Inr fs1 \<Rightarrow>
          (case safe_copy E HYDRAULICS_PATH_INIT HYDRAULICS_PATH fs1 of
             Inl e \<Rightarrow> Inl e
           | Inr fs2 \<Rightarrow> set_hydraulic_scenario E GEOM_PATH scenarios fs2))"

text \<open>
  What "the simulator is invoked once per value" means, stated without the loop: for
  each value in turn, the patch of lines 179-188 and then exactly one call of
  \<^verbatim>\<open>mecha()\<close> on the files as the patch left them.  The result is the vectors the
  calls returned, in call order, and the files after the last call.
\<close>

fun simulator_calls ::
  "'fs collaborators \<Rightarrow> string \<Rightarrow> real list \<Rightarrow> 'fs \<Rightarrow> error + (real list list \<times> 'fs)"
where
  "simulator_calls E param [] fs = Inr ([], fs)"
| "simulator_calls E param (v # vs) fs =
     (case apply_parameter E param v fs of
        Inl e \<Rightarrow> Inl e
      | Inr fs1 \<Rightarrow>
          (case mecha E fs1 of
             Inl e \<Rightarrow> Inl e
           | Inr (krs, fs2) \<Rightarrow>
               (case simulator_calls E param vs fs2 of
                  Inl e \<Rightarrow> Inl e
                | Inr (rest, fs3) \<Rightarrow> Inr (krs # rest, fs3))))"

text \<open>
  The rows one run of the inner loop appends for the value \<open>fst p\<close> when the simulator
  returned the vector \<open>snd p\<close>; used to state what the loop computes.
\<close>

definition value_records :: "int list \<Rightarrow> real \<times> real list \<Rightarrow> sweep_result list" where
  "value_records scs p =
     map (\<lambda>(j, n). \<lparr>parameter_value = fst p, kr = snd p ! j, hydraulic_scenario = n\<rparr>)
       (enumerate 0 scs)"

text \<open>
  Stand-in collaborators for closed examples: the file state is the number of simulator
  calls so far, every patch and copy succeeds and changes nothing, and the \<open>n\<close>-th call
  of the simulator (counted from 0) returns the two conductivities \<open>n\<close> and \<open>100 + n\<close>.
\<close>

definition demo_collaborators :: "nat collaborators" where
  "demo_collaborators =
     \<lparr>update_xml_attributes = (\<lambda>path tag attr kv fs. Inr fs),
      mecha = (\<lambda>fs. Inr ([real fs, 100 + real fs], Suc fs)),
      set_hydraulic_scenario = (\<lambda>path scs fs. Inr fs),
      shutil_copy = (\<lambda>src dst fs. Inr fs),
      abspath = (\<lambda>p. p),
      format_float = (\<lambda>f v. [])\<rparr>"

section \<open>Reading numbers from attribute strings\<close>

text \<open>
  Attribute values are strings of ASCII characters.  \<^verbatim>\<open>int(s)\<close> and \<^verbatim>\<open>float(s)\<close>
  strip white space, read an optional sign and then decimal digits, where single
  underscores may stand between digits.
\<close>

definition is_space :: "char \<Rightarrow> bool" where
  "is_space c \<longleftrightarrow> c \<in> set [CHR '' '', CHR 0x09, CHR 0x0A, CHR 0x0B, CHR 0x0C, CHR 0x0D]"

definition strip :: "string \<Rightarrow> string" where
  "strip s = rev (dropWhile is_space (rev (dropWhile is_space s)))"

definition digit_val :: "char \<Rightarrow> nat option" where
  "digit_val c =
     map_of [(CHR ''0'', 0), (CHR ''1'', 1), (CHR ''2'', 2), (CHR ''3'', 3), (CHR ''4'', 4),
             (CHR ''5'', 5), (CHR ''6'', 6), (CHR ''7'', 7), (CHR ''8'', 8), (CHR ''9'', 9)] c"

text \<open>
  \<open>more_digits acc s\<close> reads the rest of a digit part after a digit: digits, each
  possibly preceded by one underscore, up to the end of the string.
\<close>

fun more_digits :: "nat \<Rightarrow> string \<Rightarrow> nat option" where
  "more_digits acc [] = Some acc"
| "more_digits acc [c] =
     (case digit_val c of None \<Rightarrow> None | Some d \<Rightarrow> Some (10 * acc + d))"
| "more_digits acc (c # c' # cs) =
     (if c = CHR ''_''
      then (case digit_val c' of None \<Rightarrow> None | Some d \<Rightarrow> more_digits (10 * acc + d) cs)
      else (case digit_val c of None \<Rightarrow> None | Some d \<Rightarrow> more_digits (10 * acc + d) (c' # cs)))"

definition parse_digits :: "string \<Rightarrow> nat option" where
  "parse_digits s =
     (case s of
        [] \<Rightarrow> None
      | c # cs \<Rightarrow> (case digit_val c of None \<Rightarrow> None | Some d \<Rightarrow> more_digits d cs))"

definition parse_signed :: "string \<Rightarrow> int option" where
  "parse_signed s =
     (case s of
        [] \<Rightarrow> None
      | c # cs \<Rightarrow>
          if c = CHR ''-'' then map_option (\<lambda>n. - int n) (parse_digits cs)
          else if c = CHR ''+'' then map_option int (parse_digits cs)
          else map_option int (parse_digits (c # cs)))"

definition int_of_string :: "string \<Rightarrow> int option" where
  "int_of_string s = parse_signed (strip s)"

text \<open>
  \<^verbatim>\<open>int(a)\<close> for the result \<open>a\<close> of \<^verbatim>\<open>Element.get\<close>: TypeError on \<^verbatim>\<open>None\<close>,
  ValueError on a string that is not an integer literal.
\<close>

definition py_int :: "string option \<Rightarrow> error + int" where
  "py_int a =
     (case a of
        None \<Rightarrow> Inl TypeError
      | Some s \<Rightarrow> (case int_of_string s of None \<Rightarrow> Inl ValueError | Some i \<Rightarrow> Inr i))"

text \<open>
  The number part of a float literal: \<open>[digits] . digits\<close> or \<open>digits [.]\<close>, then an
  optional exponent \<open>e [sign] digits\<close>.
\<close>

definition parse_mantissa :: "string \<Rightarrow> real option" where
  "parse_mantissa m =
     (let ip = takeWhile (\<lambda>c. c \<noteq> CHR ''.'') m;
          rest = dropWhile (\<lambda>c. c \<noteq> CHR ''.'') m
      in case rest of
           [] \<Rightarrow> map_option real (parse_digits ip)
         | _ # fp \<Rightarrow>
             if ip = [] \<and> fp = [] then None
             else (case (if ip = [] then Some 0 else parse_digits ip) of
                     None \<Rightarrow> None
                   | Some i \<Rightarrow>
                       (case (if fp = [] then Some 0 else parse_digits fp) of
                          None \<Rightarrow> None
                        | Some f \<Rightarrow>
                            Some (real i
                                  + real f / 10 ^ length (filter (\<lambda>c. c \<noteq> CHR ''_'') fp)))))"

definition parse_floatnumber :: "string \<Rightarrow> real option" where
  "parse_floatnumber b =
     (let m = takeWhile (\<lambda>c. c \<noteq> CHR ''e'' \<and> c \<noteq> CHR ''E'') b;
          rest = dropWhile (\<lambda>c. c \<noteq> CHR ''e'' \<and> c \<noteq> CHR ''E'') b
      in case parse_mantissa m of
           None \<Rightarrow> None
         | Some r \<Rightarrow>
             (case rest of
                [] \<Rightarrow> Some r
              | _ # ex \<Rightarrow>
                  (case parse_signed ex of
                     None \<Rightarrow> None
                   | Some k \<Rightarrow> Some (if 0 \<le> k then r * 10 ^ nat k else r / 10 ^ nat (- k)))))"

definition lower :: "char \<Rightarrow> char" where
  "lower c =
     (case map_of [(CHR ''I'', CHR ''i''), (CHR ''N'', CHR ''n''), (CHR ''F'', CHR ''f''),
                   (CHR ''T'', CHR ''t''), (CHR ''Y'', CHR ''y''), (CHR ''A'', CHR ''a'')] c of
        None \<Rightarrow> c
      | Some l \<Rightarrow> l)"

text \<open>
  The outcome of \<^verbatim>\<open>float(s)\<close>: a number, an infinity or NaN (\<^verbatim>\<open>inf\<close>,
  \<^verbatim>\<open>infinity\<close>, \<^verbatim>\<open>nan\<close> in any case, with an optional sign), or ValueError.
\<close>

datatype parsed_float = Number real | Not_finite | Invalid

definition float_of_string :: "string \<Rightarrow> parsed_float" where
  "float_of_string s =
     (let t = strip s;
          negative = (t \<noteq> [] \<and> hd t = CHR ''-'');
          b = (if t \<noteq> [] \<and> (hd t = CHR ''-'' \<or> hd t = CHR ''+'') then tl t else t)
      in if map lower b \<in> set [''inf'', ''infinity'', ''nan''] then Not_finite
         else (case parse_floatnumber b of
                 None \<Rightarrow> Invalid
               | Some r \<Rightarrow> Number (if negative then - r else r)))"

text \<open>
  \<^verbatim>\<open>float(a)\<close> for the result \<open>a\<close> of \<^verbatim>\<open>Element.get\<close>.  \<open>NonFinite\<close> is not an
  exception of the program: it marks a coordinate that is an infinity or NaN, which a
  real number cannot carry, and the model follows the program no further.
\<close>

definition py_float :: "string option \<Rightarrow> error + real" where
  "py_float a =
     (case a of
        None \<Rightarrow> Inl TypeError
      | Some s \<Rightarrow>
          (case float_of_string s of
             Number r \<Rightarrow> Inr r
           | Not_finite \<Rightarrow> Inl NonFinite
           | Invalid \<Rightarrow> Inl ValueError))"

text \<open>\<^verbatim>\<open>str(n)\<close> for an integer, as the f-string of line 89 prints it.\<close>

fun str_nat :: "nat \<Rightarrow> string" where
  "str_nat n =
     (if n < 10 then [''0123456789'' ! n]
      else str_nat (n div 10) @ [''0123456789'' ! (n mod 10)])"

definition str_int :: "int \<Rightarrow> string" where
  "str_int i = (if i < 0 then CHR ''-'' # str_nat (nat (- i)) else str_nat (nat i))"

section \<open>The mesh document\<close>

text \<open>
  An element of \<^verbatim>\<open>xml.etree.ElementTree\<close>: tag, attributes, children.  Text content
  is never read by the program.
\<close>

datatype element = Element (tag: string) (attrib: "(string \<times> string) list") (children: "element list")

definition xml_get :: "element \<Rightarrow> string \<Rightarrow> string option" where
  "xml_get e k = map_of (attrib e) k"

text \<open>
  \<^verbatim>\<open>findall\<close> and \<^verbatim>\<open>find\<close> for a path of tags \<^verbatim>\<open>a/b\<close>: the matching descendants
  in document order, and the first of them.
\<close>

fun findall_path :: "element \<Rightarrow> string list \<Rightarrow> element list" where
  "findall_path e [] = [e]"
| "findall_path e (t # ts) =
     concat (map (\<lambda>c. findall_path c ts) (filter (\<lambda>c. tag c = t) (children e)))"

definition xml_findall :: "element \<Rightarrow> string \<Rightarrow> element list" where
  "xml_findall e t = findall_path e [t]"

definition xml_find :: "element \<Rightarrow> string list \<Rightarrow> element option" where
  "xml_find e path = (case findall_path e path of [] \<Rightarrow> None | c # _ \<Rightarrow> Some c)"

text \<open>Truth value of an attribute in a condition: present and not the empty string.\<close>

definition truthy :: "string option \<Rightarrow> bool" where
  "truthy a = (case a of None \<Rightarrow> False | Some s \<Rightarrow> s \<noteq> [])"

section \<open>get\_root\_section of src/utils\_vizu.py\<close>

subsection \<open>Geometry\<close>

text \<open>
  A LineString is its coordinate sequence.  A Polygon is the coordinate sequence of its
  exterior ring as handed to the constructor (the closing point is implicit); the
  polygon of no coordinates is the empty polygon.
\<close>

type_synonym point = "real \<times> real"

type_synonym linestring = "point list"

datatype polygon = Polygon (exterior: "point list")

definition is_empty :: "polygon \<Rightarrow> bool" where
  "is_empty p \<longleftrightarrow> exterior p = []"

text \<open>
  The constructor \<^verbatim>\<open>Polygon(shell)\<close> of shapely: a ring needs at least three
  coordinate tuples, one or two raise ValueError.
\<close>

definition shapely_Polygon :: "point list \<Rightarrow> error + polygon" where
  "shapely_Polygon shell =
     (if shell \<noteq> [] \<and> length shell < 3 then Inl ValueError else Inr (Polygon shell))"

text \<open>\<^verbatim>\<open>np.arctan2(y, x)\<close>: the angle of the point \<open>(x, y)\<close>, in \<open>(-pi, pi]\<close>.\<close>

definition arctan2 :: "real \<Rightarrow> real \<Rightarrow> real" where
  "arctan2 y x =
     (if 0 < x then arctan (y / x)
      else if x < 0 then (if 0 \<le> y then arctan (y / x) + pi else arctan (y / x) - pi)
      else if 0 < y then pi / 2
      else if y < 0 then - pi / 2
      else 0)"

definition mean :: "real list \<Rightarrow> real" where
  "mean xs = sum_list xs / real (length xs)"

definition centroid :: "point list \<Rightarrow> point" where
  "centroid points = (mean (map fst points), mean (map snd points))"

definition angle_about :: "point \<Rightarrow> point \<Rightarrow> real" where
  "angle_about c p = arctan2 (snd p - snd c) (fst p - fst c)"

text \<open>
  \<^verbatim>\<open>order_polygon\<close>, lines 72-80.  Indexing the columns of the array of no points
  raises IndexError.  \<^verbatim>\<open>np.argsort\<close> is not stable; \<open>sort_key\<close> is one of the
  orders it may return, and the properties below hold for each of them: they use only
  that the result is a rearrangement in ascending order of the angle.
\<close>

definition order_polygon :: "point list \<Rightarrow> error + polygon" where
  "order_polygon points =
     (if points = [] then Inl IndexError
      else shapely_Polygon (sort_key (angle_about (centroid points)) points))"

subsection \<open>Groups (lines 38-50)\<close>

type_synonym group_map = "int \<rightharpoonup> string option"

fun parse_groups :: "element list \<Rightarrow> group_map \<Rightarrow> error + group_map" where
  "parse_groups [] group_map = Inr group_map"
| "parse_groups (group_elem # rest) group_map =
     (case py_int (xml_get group_elem ''id'') of
        Inl e \<Rightarrow> Inl e
      | Inr group_id \<Rightarrow>
          parse_groups rest
            (group_map(group_id \<mapsto>
               (if group_id = 4 then Some ''cortex''
                else if group_id = 3 then Some ''endodermis''
                else xml_get group_elem ''name''))))"

definition group_elems :: "element \<Rightarrow> element list" where
  "group_elems root_elem =
     (case xml_find root_elem [''groups'', ''cellgroups''] of
        None \<Rightarrow> []
      | Some cellgroups_elem \<Rightarrow> xml_findall cellgroups_elem ''group'')"

definition read_groups :: "element \<Rightarrow> error + group_map" where
  "read_groups root_elem = parse_groups (group_elems root_elem) Map.empty"

text \<open>Line 89: \<^verbatim>\<open>group_map.get(group_id, f"unknown_group_{group_id}")\<close>.\<close>

definition resolve_group :: "group_map \<Rightarrow> int \<Rightarrow> string option" where
  "resolve_group group_map group_id =
     (case group_map group_id of
        Some name \<Rightarrow> name
      | None \<Rightarrow> Some (''unknown_group_'' @ str_int group_id))"

subsection \<open>Walls (lines 52-69)\<close>

type_synonym wall_index = "int \<rightharpoonup> linestring"

text \<open>The list comprehension of lines 62-66.\<close>

fun parse_points :: "element list \<Rightarrow> error + point list" where
  "parse_points [] = Inr []"
| "parse_points (p # ps) =
     (if truthy (xml_get p ''x'') \<and> truthy (xml_get p ''y'')
      then (case py_float (xml_get p ''x'') of
              Inl e \<Rightarrow> Inl e
            | Inr x \<Rightarrow>
                (case py_float (xml_get p ''y'') of
                   Inl e \<Rightarrow> Inl e
                 | Inr y \<Rightarrow>
                     (case parse_points ps of
                        Inl e \<Rightarrow> Inl e
                      | Inr points \<Rightarrow> Inr ((x, y) # points))))
      else parse_points ps)"

fun parse_walls :: "element list \<Rightarrow> wall_index \<Rightarrow> error + wall_index" where
  "parse_walls [] wall_linestrings = Inr wall_linestrings"
| "parse_walls (wall_elem # rest) wall_linestrings =
     (case py_int (xml_get wall_elem ''id'') of
        Inl e \<Rightarrow> Inl e
      | Inr wall_id \<Rightarrow>
          (case xml_find wall_elem [''points''] of
             None \<Rightarrow> parse_walls rest wall_linestrings
           | Some points_elem \<Rightarrow>
               (case parse_points (xml_findall points_elem ''point'') of
                  Inl e \<Rightarrow> Inl e
                | Inr points \<Rightarrow>
                    if 2 \<le> length points
                    then parse_walls rest (wall_linestrings(wall_id \<mapsto> points))
                    else parse_walls rest wall_linestrings)))"

definition wall_elems :: "element \<Rightarrow> element list" where
  "wall_elems root_elem =
     (case xml_find root_elem [''walls''] of
        None \<Rightarrow> []
      | Some walls_elem \<Rightarrow> xml_findall walls_elem ''wall'')"

definition read_walls :: "element \<Rightarrow> error + wall_index" where
  "read_walls root_elem = parse_walls (wall_elems root_elem) Map.empty"

subsection \<open>Cells (lines 82-122)\<close>

record cell_record =
  id_cell :: int
  type :: "string option"
  geometry :: polygon

text \<open>Lines 95-102: the lines and the points of the walls a cell refers to.\<close>

fun gather_walls :: "wall_index \<Rightarrow> element list \<Rightarrow> error + (linestring list \<times> point list)" where
  "gather_walls wall_linestrings [] = Inr ([], [])"
| "gather_walls wall_linestrings (wall_ref # rest) =
     (case py_int (xml_get wall_ref ''id'') of
        Inl e \<Rightarrow> Inl e
      | Inr wall_id \<Rightarrow>
          (case gather_walls wall_linestrings rest of
             Inl e \<Rightarrow> Inl e
           | Inr (cell_lines, cell_points) \<Rightarrow>
               (case wall_linestrings wall_id of
                  None \<Rightarrow> Inr (cell_lines, cell_points)
                | Some wall \<Rightarrow> Inr (wall # cell_lines, wall @ cell_points))))"

definition wall_refs :: "element \<Rightarrow> element list" where
  "wall_refs cell_elem =
     (case xml_find cell_elem [''walls''] of
        None \<Rightarrow> []
      | Some walls_ref_elem \<Rightarrow> xml_findall walls_ref_elem ''wall'')"

text \<open>
  Lines 104-113: the first polygon of \<^verbatim>\<open>polygonize\<close>, or the fallback with its tag.
  \<^verbatim>\<open>polygonize\<close> of shapely is a parameter.
\<close>

definition cell_polygon_of ::
  "(linestring list \<Rightarrow> polygon list) \<Rightarrow> string option \<Rightarrow> linestring list \<Rightarrow> point list
     \<Rightarrow> error + (polygon option \<times> string option)"
where
  "cell_polygon_of polygonize cell_type cell_lines cell_points =
     (if cell_lines \<noteq> []
      then (case polygonize cell_lines of
              p # _ \<Rightarrow> Inr (Some p, cell_type)
            | [] \<Rightarrow>
                (case order_polygon cell_points of
                   Inl e \<Rightarrow> Inl e
                 | Inr p \<Rightarrow> Inr (Some p, Some ''fallback'')))
      else Inr (None, cell_type))"

text \<open>One turn of the loop over the cells: the record it appends, if any.\<close>

definition reconstruct_cell ::
  "(linestring list \<Rightarrow> polygon list) \<Rightarrow> group_map \<Rightarrow> wall_index \<Rightarrow> element
     \<Rightarrow> error + cell_record option"
where
  "reconstruct_cell polygonize group_map wall_linestrings cell_elem =
     (case py_int (xml_get cell_elem ''id'') of
        Inl e \<Rightarrow> Inl e
      | Inr cell_id \<Rightarrow>
          (case py_int (xml_get cell_elem ''group'') of
             Inl e \<Rightarrow> Inl e
           | Inr group_id \<Rightarrow>
               (case gather_walls wall_linestrings (wall_refs cell_elem) of
                  Inl e \<Rightarrow> Inl e
                | Inr (cell_lines, cell_points) \<Rightarrow>
                    (case cell_polygon_of polygonize (resolve_group group_map group_id)
                            cell_lines cell_points of
                       Inl e \<Rightarrow> Inl e
                     | Inr (cell_polygon, cell_type) \<Rightarrow>
                         (case cell_polygon of
                            None \<Rightarrow> Inr None
                          | Some p \<Rightarrow>
                              if \<not> is_empty p
                              then Inr (Some \<lparr>id_cell = cell_id, type = cell_type,
                                               geometry = p\<rparr>)
                              else Inr None)))))"

fun parse_cells ::
  "(linestring list \<Rightarrow> polygon list) \<Rightarrow> group_map \<Rightarrow> wall_index \<Rightarrow> element list
     \<Rightarrow> error + cell_record list"
where
  "parse_cells polygonize group_map wall_linestrings [] = Inr []"
| "parse_cells polygonize group_map wall_linestrings (cell_elem # rest) =
     (case reconstruct_cell polygonize group_map wall_linestrings cell_elem of
        Inl e \<Rightarrow> Inl e
      | Inr r \<Rightarrow>
          (case parse_cells polygonize group_map wall_linestrings rest of
             Inl e \<Rightarrow> Inl e
           | Inr records \<Rightarrow> Inr (case r of None \<Rightarrow> records | Some c \<Rightarrow> c # records)))"

definition cell_elems :: "element \<Rightarrow> element list" where
  "cell_elems root_elem =
     (case xml_find root_elem [''cells''] of
        None \<Rightarrow> []
      | Some cells_elem \<Rightarrow> xml_findall cells_elem ''cell'')"

subsection \<open>The function\<close>

text \<open>
  A GeoDataFrame is modelled by its list of rows.  Line 125 builds the frame with
  \<^verbatim>\<open>gpd.GeoDataFrame(records, crs="EPSG:4326")\<close>: a frame of no rows has no
  geometry column, and geopandas refuses to give a coordinate reference system to such a
  frame with ValueError.  The empty frame of line 36 is built from column names and
  without \<^verbatim>\<open>crs\<close>, and raises nothing.
\<close>

definition GeoDataFrame_with_crs :: "cell_record list \<Rightarrow> error + cell_record list" where
  "GeoDataFrame_with_crs records = (if records = [] then Inl ValueError else Inr records)"

text \<open>
  The argument is what \<^verbatim>\<open>ET.parse(xml_file_path).getroot()\<close> yields: the root
  element, or the exception of a file that is missing or is not well-formed XML.
\<close>

definition get_root_section ::
  "(linestring list \<Rightarrow> polygon list) \<Rightarrow> error + element \<Rightarrow> error + cell_record list"
where
  "get_root_section polygonize parsed =
     (case parsed of
        Inl e \<Rightarrow> Inr []
      | Inr root_elem \<Rightarrow>
          (case read_groups root_elem of
             Inl e \<Rightarrow> Inl e
           | Inr group_map \<Rightarrow>
               (case read_walls root_elem of
                  Inl e \<Rightarrow> Inl e
                | Inr wall_linestrings \<Rightarrow>
                    (case parse_cells polygonize group_map wall_linestrings
                            (cell_elems root_elem) of
                       Inl e \<Rightarrow> Inl e
                     | Inr records \<Rightarrow> GeoDataFrame_with_crs records))))"

section \<open>Notions used to state the properties\<close>

text \<open>The declaration of group \<open>i\<close> that counts: the last one in document order.\<close>

definition last_declaration :: "element \<Rightarrow> int \<Rightarrow> element option" where
  "last_declaration root_elem i =
     List.find (\<lambda>g. py_int (xml_get g ''id'') = Inr i) (rev (group_elems root_elem))"

text \<open>
  The \<^verbatim>\<open>point\<close> elements of a wall, those of them that pass the filter of line 65,
  and the coordinates read from such a point.
\<close>

definition point_elems :: "element \<Rightarrow> element list" where
  "point_elems wall_elem =
     (case xml_find wall_elem [''points''] of
        None \<Rightarrow> []
      | Some points_elem \<Rightarrow> xml_findall points_elem ''point'')"

definition has_xy :: "element \<Rightarrow> bool" where
  "has_xy p \<longleftrightarrow> truthy (xml_get p ''x'') \<and> truthy (xml_get p ''y'')"

definition numeric_xy :: "element \<Rightarrow> bool" where
  "numeric_xy p \<longleftrightarrow> \<not> isl (py_float (xml_get p ''x'')) \<and> \<not> isl (py_float (xml_get p ''y''))"

definition coords_of :: "element \<Rightarrow> point" where
  "coords_of p = (projr (py_float (xml_get p ''x'')), projr (py_float (xml_get p ''y'')))"

definition valid_points :: "element \<Rightarrow> point list" where
  "valid_points wall_elem = map coords_of (filter has_xy (point_elems wall_elem))"

text \<open>
  The area enclosed by a ring of vertices (shoelace formula), to say what a zero-area
  polygon is.
\<close>

definition ring_area :: "point list \<Rightarrow> real" where
  "ring_area ps =
     \<bar>sum_list (map (\<lambda>(p, q). fst p * snd q - fst q * snd p) (zip ps (rotate1 ps)))\<bar> / 2"

text \<open>
  Element content that the conversions of \<^verbatim>\<open>get_root_section\<close> accept: every id
  it converts is an integer literal and every coordinate that is present is a float
  literal.
\<close>

definition integer_attr :: "element \<Rightarrow> string \<Rightarrow> bool" where
  "integer_attr e k \<longleftrightarrow> \<not> isl (py_int (xml_get e k))"

definition well_formed_content :: "element \<Rightarrow> bool" where
  "well_formed_content root_elem \<longleftrightarrow>
     (\<forall>g \<in> set (group_elems root_elem). integer_attr g ''id'')
     \<and> (\<forall>w \<in> set (wall_elems root_elem).
           integer_attr w ''id'' \<and> (\<forall>p \<in> set (point_elems w). has_xy p \<longrightarrow> numeric_xy p))
     \<and> (\<forall>c \<in> set (cell_elems root_elem).
           integer_attr c ''id'' \<and> integer_attr c ''group''
           \<and> (\<forall>r \<in> set (wall_refs c). integer_attr r ''id''))"

text \<open>No cell of the document sends fewer than three points to the fallback.\<close>

definition fallback_has_three_points :: "(linestring list \<Rightarrow> polygon list) \<Rightarrow> element \<Rightarrow> bool" where
  "fallback_has_three_points polygonize root_elem \<longleftrightarrow>
     (case read_walls root_elem of
        Inl e \<Rightarrow> True
      | Inr wall_linestrings \<Rightarrow>
          (\<forall>c \<in> set (cell_elems root_elem).
             (case gather_walls wall_linestrings (wall_refs c) of
                Inl e \<Rightarrow> True
              | Inr (cell_lines, cell_points) \<Rightarrow>
                  cell_lines \<noteq> [] \<and> polygonize cell_lines = [] \<longrightarrow> 3 \<le> length cell_points)))"

text \<open>
  Some cell of the document gets a polygon that is not empty: it refers to a wall of the
  index, and the first ring of \<^verbatim>\<open>polygonize\<close>, if there is one, is not empty.
\<close>

definition some_cell_has_polygon :: "(linestring list \<Rightarrow> polygon list) \<Rightarrow> element \<Rightarrow> bool" where
  "some_cell_has_polygon polygonize root_elem \<longleftrightarrow>
     (case read_walls root_elem of
        Inl e \<Rightarrow> False
      | Inr wall_linestrings \<Rightarrow>
          (\<exists>c \<in> set (cell_elems root_elem).
             (case gather_walls wall_linestrings (wall_refs c) of
                Inl e \<Rightarrow> False
              | Inr (cell_lines, cell_points) \<Rightarrow>
                  cell_lines \<noteq> []
                  \<and> (case polygonize cell_lines of [] \<Rightarrow> True | p # _ \<Rightarrow> \<not> is_empty p))))"

section \<open>Example documents\<close>

definition point_xy :: "string \<Rightarrow> string \<Rightarrow> element" where
  "point_xy x y = Element ''point'' [(''x'', x), (''y'', y)] []"

definition wall_of :: "string \<Rightarrow> element list \<Rightarrow> element" where
  "wall_of i pts = Element ''wall'' [(''id'', i)] [Element ''points'' [] pts]"

definition ref_to :: "string \<Rightarrow> element" where
  "ref_to i = Element ''wall'' [(''id'', i)] []"

definition cell_of :: "string \<Rightarrow> string \<Rightarrow> string list \<Rightarrow> element" where
  "cell_of i g refs =
     Element ''cell'' [(''id'', i), (''group'', g)] [Element ''walls'' [] (map ref_to refs)]"

definition mesh :: "element list \<Rightarrow> element list \<Rightarrow> element list \<Rightarrow> element" where
  "mesh groups walls cells =
     Element ''root'' []
       [Element ''groups'' [] [Element ''cellgroups'' [] groups],
        Element ''walls'' [] walls,
        Element ''cells'' [] cells]"

text \<open>
  Stand-ins for \<^verbatim>\<open>polygonize\<close> in closed examples.  \<open>no_rings\<close> is its result on
  linework without a closed ring.  \<open>single_ring\<close> is its result on one linestring: the
  ring of a closed linestring of at least three distinct vertices, nothing otherwise.
\<close>

definition no_rings :: "linestring list \<Rightarrow> polygon list" where
  "no_rings cell_lines = []"

definition single_ring :: "linestring list \<Rightarrow> polygon list" where
  "single_ring cell_lines =
     (case cell_lines of
        [l] \<Rightarrow> if 4 \<le> length l \<and> hd l = last l then [Polygon (butlast l)] else []
      | _ \<Rightarrow> [])"

text \<open>A triangle drawn by one closed wall, the cell 1 of group \<open>g\<close> inside it.\<close>

definition triangle_mesh :: "element list \<Rightarrow> string \<Rightarrow> element" where
  "triangle_mesh groups g =
     mesh groups
       [wall_of ''1'' [point_xy ''0'' ''0'', point_xy ''1'' ''0'', point_xy ''0'' ''1'',
                       point_xy ''0'' ''0'']]
       [cell_of ''1'' g [''1'']]"

text \<open>A single open wall of two points, referred to by cell 2 of the undeclared group 9.\<close>

definition two_point_mesh :: element where
  "two_point_mesh =
     mesh [] [wall_of ''1'' [point_xy ''0'' ''0'', point_xy ''1'' ''0'']]
       [cell_of ''2'' ''9'' [''1'']]"

text \<open>Two walls that form an open polyline and share the point \<open>(1, 0)\<close>.\<close>

definition open_polyline_mesh :: element where
  "open_polyline_mesh =
     mesh []
       [wall_of ''1'' [point_xy ''0'' ''0'', point_xy ''1'' ''0''],
        wall_of ''2'' [point_xy ''1'' ''0'', point_xy ''1'' ''1'']]
       [cell_of ''1'' ''4'' [''1'', ''2'']]"

text \<open>One open wall of three points on a line.\<close>

definition collinear_mesh :: element where
  "collinear_mesh =
     mesh []
       [wall_of ''1'' [point_xy ''0'' ''0'', point_xy ''1'' ''0'', point_xy ''2'' ''0'']]
       [cell_of ''1'' ''4'' [''1'']]"

text \<open>
  Wall 1 has a point without \<^verbatim>\<open>y\<close> and a point with an empty \<^verbatim>\<open>x\<close> among
  three good ones; wall 2 keeps a single good point.
\<close>

definition missing_coordinate_mesh :: element where
  "missing_coordinate_mesh =
     mesh []
       [wall_of ''1''
          [point_xy ''0'' ''0'', Element ''point'' [(''x'', ''5'')] [], point_xy ''1'' ''0'',
           point_xy '''' ''7'', point_xy ''0'' ''1''],
        wall_of ''2'' [point_xy ''3'' ''3'', point_xy ''4'' '''']]
       [cell_of ''1'' ''4'' [''1'', ''2'']]"

text \<open>Wall 1 has a point whose \<^verbatim>\<open>x\<close> is not a number; wall 2 is sound.\<close>

definition bad_number_mesh :: element where
  "bad_number_mesh =
     mesh []
       [wall_of ''1'' [point_xy ''0'' ''0'', point_xy ''abc'' ''0'', point_xy ''1'' ''1''],
        wall_of ''2'' [point_xy ''0'' ''0'', point_xy ''1'' ''0'', point_xy ''0'' ''1'']]
       [cell_of ''1'' ''4'' [''2'']]"

text \<open>A group element without an \<^verbatim>\<open>id\<close>.\<close>

definition bad_group_mesh :: element where
  "bad_group_mesh = mesh [Element ''group'' [(''name'', ''stele'')] []] [] []"

text \<open>Group declarations that rename the groups 4 and 3, and one that names group 7.\<close>

definition renamed_groups :: "element list" where
  "renamed_groups =
     [Element ''group'' [(''id'', ''4''), (''name'', ''stele'')] [],
      Element ''group'' [(''id'', ''3''), (''name'', ''pith'')] []]"

definition stele_groups :: "element list" where
  "stele_groups = [Element ''group'' [(''id'', ''7''), (''name'', ''stele'')] []]"

text \<open>
  The triangle again, with a second cell whose only reference is to a wall that does not
  exist.
\<close>

definition two_cell_mesh :: element where
  "two_cell_mesh =
     mesh stele_groups
       [wall_of ''1'' [point_xy ''0'' ''0'', point_xy ''1'' ''0'', point_xy ''0'' ''1'',
                       point_xy ''0'' ''0'']]
       [cell_of ''1'' ''7'' [''1''], cell_of ''2'' ''7'' [''5'']]"

text \<open>A document whose only cell refers to a wall that does not exist.\<close>

definition no_record_mesh :: element where
  "no_record_mesh = mesh stele_groups [] [cell_of ''2'' ''7'' [''5'']]"

section \<open>Properties of the sweep driver\<close>

subsection \<open>Value generation\<close>




lemma range_selection_accepted:
  "slider (min_limit info) (max_limit info) (lo, hi) \<Longrightarrow>
     \<exists>vs. param_values info (Range_mode lo hi) = Some vs"
  by simp

text \<open>The full range of every parameter of the table is a selection the slider admits.\<close>

lemma default_range_admissible:
  "\<forall>(name, info) \<in> set PARAM_INFO.
     param_values info (Range_mode (min_limit info) (max_limit info)) \<noteq> None"
  by (simp add: PARAM_INFO_def slider_def min_limit_def max_limit_def)


subsection \<open>The loop\<close>

lemma scenario_records_Inr:
  "scenario_records v krs i scs = Inr rs \<Longrightarrow>
     rs = map (\<lambda>(j, n). \<lparr>parameter_value = v, kr = krs ! j, hydraulic_scenario = n\<rparr>)
            (enumerate i scs)
     \<and> (scs \<noteq> [] \<longrightarrow> i + length scs \<le> length krs)"
proof (induction scs arbitrary: i rs)
  case Nil
  then show ?case by simp
next
  case (Cons n rest)
  from Cons.prems have lt: "i < length krs"
    by (simp split: if_splits)
  from Cons.prems lt obtain rs' where r: "scenario_records v krs (Suc i) rest = Inr rs'"
    and rs: "rs = \<lparr>parameter_value = v, kr = krs ! i, hydraulic_scenario = n\<rparr> # rs'"
    by (auto split: sum.splits)
  from Cons.IH [OF r] rs lt show ?case by (cases rest) auto
qed

lemma scenario_records_total:
  "i + length scs \<le> length krs \<Longrightarrow> \<exists>rs. scenario_records v krs i scs = Inr rs"
proof (induction scs arbitrary: i)
  case Nil
  show ?case by simp
next
  case (Cons n rest)
  then have "Suc i + length rest \<le> length krs" by simp
  from Cons.IH [OF this] obtain rs where "scenario_records v krs (Suc i) rest = Inr rs" ..
  with Cons.prems show ?case by simp
qed

lemma sweep_loop_Inr:
  "sweep_loop E param scs vs s = Inr s' \<Longrightarrow>
     \<exists>outs. length outs = length vs
       \<and> invocations s' = invocations s @ outs
       \<and> results s' = results s @ concat (map (value_records scs) (zip vs outs))
       \<and> (\<forall>krs \<in> set outs. scs \<noteq> [] \<longrightarrow> length scs \<le> length krs)"
proof (induction vs arbitrary: s)
  case Nil
  then show ?case by simp
next
  case (Cons v vs)
  from Cons.prems obtain fs1 krs fs2 rs where
    m: "mecha E fs1 = Inr (krs, fs2)" and
    r: "scenario_records v krs 0 scs = Inr rs" and
    l: "sweep_loop E param scs vs
          \<lparr>files = fs2, results = results s @ rs, invocations = invocations s @ [krs]\<rparr> = Inr s'"
    by (auto split: sum.splits prod.splits)
  from scenario_records_Inr [OF r]
  have rs: "rs = value_records scs (v, krs)" and b: "scs \<noteq> [] \<longrightarrow> length scs \<le> length krs"
    by (simp_all add: value_records_def)
  from Cons.IH [OF l] obtain outs where
    o: "length outs = length vs"
       "invocations s' = (invocations s @ [krs]) @ outs"
       "results s' = (results s @ rs) @ concat (map (value_records scs) (zip vs outs))"
       "\<forall>krs \<in> set outs. scs \<noteq> [] \<longrightarrow> length scs \<le> length krs"
    by auto
  show ?case
    by (rule exI [of _ "krs # outs"]) (use o rs b in auto)
qed

text \<open>
  The loop returns when the patcher never fails and the simulator always returns at least
  as many conductivities as scenarios are selected.
\<close>

lemma sweep_loop_total:
  assumes "\<And>v fs. \<exists>fs'. apply_parameter E param v fs = Inr fs'"
    and "\<And>fs. \<exists>krs fs'. mecha E fs = Inr (krs, fs') \<and> length scs \<le> length krs"
  shows "\<exists>s'. sweep_loop E param scs vs s = Inr s'"
proof (induction vs arbitrary: s)
  case Nil
  show ?case by simp
next
  case (Cons v vs)
  from assms(1) obtain fs1 where a: "apply_parameter E param v (files s) = Inr fs1" by blast
  from assms(2) obtain krs fs2 where m: "mecha E fs1 = Inr (krs, fs2)"
    and l: "length scs \<le> length krs" by blast
  from l have "0 + length scs \<le> length krs" by simp
  from scenario_records_total [OF this] obtain rs where
    r: "scenario_records v krs 0 scs = Inr rs" by blast
  from Cons.IH obtain s' where
    "sweep_loop E param scs vs
       \<lparr>files = fs2, results = results s @ rs, invocations = invocations s @ [krs]\<rparr> = Inr s'"
    by blast
  with a m r show ?case by simp
qed

lemma length_value_records: "length (value_records scs p) = length scs"
  by (simp add: value_records_def)

lemma nth_value_records:
  "j < length scs \<Longrightarrow>
     value_records scs p ! j = \<lparr>parameter_value = fst p, kr = snd p ! j, hydraulic_scenario = scs ! j\<rparr>"
  by (simp add: value_records_def nth_enumerate_eq)

lemma length_concat_uniform:
  "\<forall>xs \<in> set xss. length xs = k \<Longrightarrow> length (concat xss) = length xss * k"
  by (induction xss) auto

lemma nth_concat_uniform:
  "\<forall>xs \<in> set xss. length xs = k \<Longrightarrow> i < length xss \<Longrightarrow> j < k \<Longrightarrow>
     concat xss ! (i * k + j) = xss ! i ! j"
proof (induction xss arbitrary: i)
  case Nil
  then show ?case by simp
next
  case (Cons xs xss)
  show ?case
  proof (cases i)
    case 0
    with Cons.prems show ?thesis by (simp add: nth_append)
  next
    case (Suc i')
    with Cons.prems have "concat xss ! (i' * k + j) = xss ! i' ! j"
      by (intro Cons.IH) auto
    with Suc Cons.prems show ?thesis by (simp add: nth_append add.assoc)
  qed
qed

lemma run_simulation_Inr:
  assumes "run_simulation E pre param scs vs fs = Inr s"
  shows "\<exists>outs. length outs = length vs \<and> invocations s = outs
       \<and> results s = concat (map (value_records scs) (zip vs outs))
       \<and> (\<forall>krs \<in> set outs. scs \<noteq> [] \<longrightarrow> length scs \<le> length krs)"
proof -
  from assms obtain fs3 where
    "sweep_loop E param scs vs \<lparr>files = fs3, results = [], invocations = []\<rparr> = Inr s"
    by (auto simp: run_simulation_def split: sum.splits)
  from sweep_loop_Inr [OF this] show ?thesis by simp
qed

lemma sweep_loop_calls:
  "sweep_loop E param scs vs s = Inr s' \<Longrightarrow>
     \<exists>outs. simulator_calls E param vs (files s) = Inr (outs, files s')
       \<and> invocations s' = invocations s @ outs"
proof (induction vs arbitrary: s)
  case Nil
  then show ?case by simp
next
  case (Cons v vs)
  from Cons.prems obtain fs1 krs fs2 rs where
    a: "apply_parameter E param v (files s) = Inr fs1" and
    m: "mecha E fs1 = Inr (krs, fs2)" and
    l: "sweep_loop E param scs vs
          \<lparr>files = fs2, results = results s @ rs, invocations = invocations s @ [krs]\<rparr> = Inr s'"
    by (auto split: sum.splits prod.splits)
  from Cons.IH [OF l] obtain outs where
    c: "simulator_calls E param vs fs2 = Inr (outs, files s')" and
    i: "invocations s' = (invocations s @ [krs]) @ outs"
    by auto
  from a m c i show ?case by simp
qed

lemma run_simulation_calls:
  assumes "run_simulation E pre param scs vs fs = Inr s"
  shows "\<exists>fs0. clean_start E pre scs fs = Inr fs0
           \<and> simulator_calls E param vs fs0 = Inr (invocations s, files s)"
proof -
  from assms obtain fs0 where
    c: "clean_start E pre scs fs = Inr fs0" and
    l: "sweep_loop E param scs vs \<lparr>files = fs0, results = [], invocations = []\<rparr> = Inr s"
    by (auto simp: run_simulation_def clean_start_def split: sum.splits)
  from sweep_loop_calls [OF l] c show ?thesis by simp
qed

lemma run_simulation_clean_start:
  "run_simulation E pre param scs vs fs =
     (case clean_start E pre scs fs of
        Inl e \<Rightarrow> Inl e
      | Inr fs0 \<Rightarrow>
          sweep_loop E param scs vs \<lparr>files = fs0, results = [], invocations = []\<rparr>)"
  by (simp add: run_simulation_def clean_start_def split: sum.splits)

lemma run_simulation_total:
  assumes "clean_start E pre scs fs = Inr fs0"
    and "\<And>v fs. \<exists>fs'. apply_parameter E param v fs = Inr fs'"
    and "\<And>fs. \<exists>krs fs'. mecha E fs = Inr (krs, fs') \<and> length scs \<le> length krs"
  shows "\<exists>s. run_simulation E pre param scs vs fs = Inr s"
proof -
  from sweep_loop_total [of E param scs vs "\<lparr>files = fs0, results = [], invocations = []\<rparr>",
      OF assms(2,3)]
  obtain s where "sweep_loop E param scs vs \<lparr>files = fs0, results = [], invocations = []\<rparr> = Inr s"
    by blast
  with assms(1) show ?thesis by (simp add: run_simulation_clean_start)
qed

lemma demo_run:
  "run_simulation demo_collaborators True ''cell wall thickness'' [1] [3 / 2] 0 =
     Inr \<lparr>files = Suc 0,
          results = [\<lparr>parameter_value = 3 / 2, kr = 0, hydraulic_scenario = 1\<rparr>],
          invocations = [[0, 100]]\<rparr>"
  by (simp add: run_simulation_def safe_copy_def demo_collaborators_def apply_parameter_def
      GEOM_PATH_def GEOM_PATH_PRE_def HYDRAULICS_PATH_def HYDRAULICS_PATH_INIT_def)

lemma demo_run2:
  "run_simulation demo_collaborators False ''membrane permeability'' [1, 0] [3, 4] 0 =
     Inr \<lparr>files = 2,
          results = [\<lparr>parameter_value = 3, kr = 0, hydraulic_scenario = 1\<rparr>,
                     \<lparr>parameter_value = 3, kr = 100, hydraulic_scenario = 0\<rparr>,
                     \<lparr>parameter_value = 4, kr = 1, hydraulic_scenario = 1\<rparr>,
                     \<lparr>parameter_value = 4, kr = 101, hydraulic_scenario = 0\<rparr>],
          invocations = [[0, 100], [1, 101]]\<rparr>"
  by (simp add: run_simulation_def safe_copy_def demo_collaborators_def apply_parameter_def
      GEOM_PATH_def GEOM_PATH_INIT_def HYDRAULICS_PATH_def HYDRAULICS_PATH_INIT_def numeral_2_eq_2)

text \<open>
  Claim C9.  A sweep over \<open>n\<close> generated values and \<open>k\<close> selected scenarios (one that
  runs to its end: an exception of a collaborator aborts it) emits exactly
  \<open>n * k\<close> records and calls the simulator exactly \<open>n\<close> times, once per value and not
  once per pair of a value and a scenario: after the clean start, the files and the
  vectors returned are those of \<open>simulator_calls\<close>, one patch and one call of the
  simulator for each value in turn.  The values appear in generation order, and within
  each value the scenarios appear in the order of the user's selection.
\<close>

theorem sweep_counts_and_order:
  assumes "run_simulation E pre param scenarios vals fs = Inr s"
  shows "length (results s) = length vals * length scenarios
       \<and> length (invocations s) = length vals
       \<and> (\<exists>fs0. clean_start E pre scenarios fs = Inr fs0
             \<and> simulator_calls E param vals fs0 = Inr (invocations s, files s))
       \<and> map parameter_value (results s) = concat (map (replicate (length scenarios)) vals)
       \<and> map hydraulic_scenario (results s) = concat (replicate (length vals) scenarios)"
proof -
  from run_simulation_Inr [OF assms] obtain outs where
    n: "length outs = length vals" and i: "invocations s = outs" and
    r: "results s = concat (map (value_records scenarios) (zip vals outs))"
    by blast
  have pv: "map parameter_value (value_records scenarios p) = replicate (length scenarios) (fst p)" for p
    by (simp add: value_records_def comp_def case_prod_unfold map_replicate_const)
  have hs: "map hydraulic_scenario (value_records scenarios p) = scenarios" for p
    by (simp add: value_records_def comp_def case_prod_unfold map_snd_enumerate)
  have c1: "length (results s) = length vals * length scenarios"
    unfolding r using n
    by (subst length_concat_uniform [where k = "length scenarios"])
       (auto simp: length_value_records)
  have c3: "map parameter_value (results s) = concat (map (replicate (length scenarios)) vals)"
    unfolding r using n
  proof (induction vals arbitrary: outs)
    case Nil
    then show ?case by simp
  next
    case (Cons v vs)
    then obtain o1 os where "outs = o1 # os" by (cases outs) auto
    with Cons show ?case by (simp add: pv)
  qed
  have c4: "map hydraulic_scenario (results s) = concat (replicate (length vals) scenarios)"
    unfolding r using n
  proof (induction vals arbitrary: outs)
    case Nil
    then show ?case by simp
  next
    case (Cons v vs)
    then obtain o1 os where "outs = o1 # os" by (cases outs) auto
    with Cons show ?case by (simp add: hs)
  qed
  from c1 c3 c4 n i run_simulation_calls [OF assms] show ?thesis by simp
qed

theorem sweep_counts_and_order_witness:
  "run_simulation demo_collaborators False ''membrane permeability'' [1, 0] [3, 4] 0 =
     Inr \<lparr>files = 2,
          results = [\<lparr>parameter_value = 3, kr = 0, hydraulic_scenario = 1\<rparr>,
                     \<lparr>parameter_value = 3, kr = 100, hydraulic_scenario = 0\<rparr>,
                     \<lparr>parameter_value = 4, kr = 1, hydraulic_scenario = 1\<rparr>,
                     \<lparr>parameter_value = 4, kr = 101, hydraulic_scenario = 0\<rparr>],
          invocations = [[0, 100], [1, 101]]\<rparr>
   \<and> clean_start demo_collaborators False [1, 0] 0 = Inr 0
   \<and> simulator_calls demo_collaborators ''membrane permeability'' [3, 4] 0
       = Inr ([[0, 100], [1, 101]], 2)"
proof -
  let ?s = "\<lparr>files = 2 :: nat,
          results = [\<lparr>parameter_value = 3, kr = 0, hydraulic_scenario = 1\<rparr>,
                     \<lparr>parameter_value = 3, kr = 100, hydraulic_scenario = 0\<rparr>,
                     \<lparr>parameter_value = 4, kr = 1, hydraulic_scenario = 1\<rparr>,
                     \<lparr>parameter_value = 4, kr = 101, hydraulic_scenario = 0\<rparr>],
          invocations = [[0, 100], [1, 101]]\<rparr>"
  have c: "clean_start demo_collaborators False [1, 0] 0 = Inr 0"
    by (simp add: clean_start_def safe_copy_def demo_collaborators_def)
  from sweep_counts_and_order [OF demo_run2] obtain fs0 where
    "clean_start demo_collaborators False [1, 0] 0 = Inr fs0"
    "simulator_calls demo_collaborators ''membrane permeability'' [3, 4] fs0
       = Inr (invocations ?s, files ?s)"
    by blast
  with c have "simulator_calls demo_collaborators ''membrane permeability'' [3, 4] 0
       = Inr ([[0, 100], [1, 101]], 2)"
    by simp
  with c demo_run2 show ?thesis by simp
qed

text \<open>
  Claim C1, as amended.  The simulator is called once per generated value, and the record
  emitted for the \<open>i\<close>-th value and the \<open>j\<close>-th selected scenario carries the entry of that
  call's output vector at index \<open>j\<close>, the position of the scenario in the user's selection
  list (line 193 reads \<^verbatim>\<open>kr[i_sc]\<close>), not the entry at the scenario's identifier.
\<close>

theorem record_reads_vector_by_position:
  assumes "run_simulation E pre param scenarios vals fs = Inr s"
    and "i < length vals" and "j < length scenarios"
  shows "length (invocations s) = length vals
       \<and> j < length (invocations s ! i)
       \<and> results s ! (i * length scenarios + j) =
           \<lparr>parameter_value = vals ! i, kr = invocations s ! i ! j,
            hydraulic_scenario = scenarios ! j\<rparr>"
proof -
  from run_simulation_Inr [OF assms(1)] obtain outs where
    n: "length outs = length vals" and inv: "invocations s = outs" and
    r: "results s = concat (map (value_records scenarios) (zip vals outs))" and
    b: "\<forall>krs \<in> set outs. scenarios \<noteq> [] \<longrightarrow> length scenarios \<le> length krs"
    by blast
  from assms(2) n have "outs ! i \<in> set outs" by simp
  with b assms(3) have lt: "j < length (outs ! i)" by fastforce
  have "concat (map (value_records scenarios) (zip vals outs)) ! (i * length scenarios + j)
          = map (value_records scenarios) (zip vals outs) ! i ! j"
    using assms(2,3) n
    by (intro nth_concat_uniform) (auto simp: length_value_records)
  also have "\<dots> = value_records scenarios (vals ! i, outs ! i) ! j"
    using assms(2) n by simp
  also have "\<dots> = \<lparr>parameter_value = vals ! i, kr = outs ! i ! j, hydraulic_scenario = scenarios ! j\<rparr>"
    using assms(3) by (simp add: nth_value_records)
  finally show ?thesis using n inv r lt by simp
qed

theorem record_reads_vector_by_position_witness:
  "results (projr (run_simulation demo_collaborators False ''membrane permeability'' [1, 0] [3, 4] 0)) ! 3
     = \<lparr>parameter_value = 4, kr = 101, hydraulic_scenario = 0\<rparr>"
  using record_reads_vector_by_position [OF demo_run2, of 1 1] by (simp add: demo_run2 numeral_2_eq_2)

text \<open>
  Claim C1 as stated fails: with the single scenario 1 selected and a simulator that
  returns \<open>[0, 100]\<close>, the record for scenario 1 carries entry 0 of the vector, while the
  entry at index 1, the scenario's identifier, is 100.
\<close>

theorem record_by_scenario_id_counterexample:
  "run_simulation demo_collaborators True ''cell wall thickness'' [1] [3 / 2] 0 =
     Inr \<lparr>files = Suc 0,
          results = [\<lparr>parameter_value = 3 / 2, kr = 0, hydraulic_scenario = 1\<rparr>],
          invocations = [[0, 100]]\<rparr>
   \<and> [0, 100 :: real] ! nat 1 \<noteq> 0"
  using demo_run by simp

section \<open>Properties of get\_root\_section\<close>

subsection \<open>Evaluation of the examples\<close>

lemma py_int_literals:
  "py_int (Some ''1'') = Inr 1" "py_int (Some ''2'') = Inr 2" "py_int (Some ''3'') = Inr 3"
  "py_int (Some ''4'') = Inr 4" "py_int (Some ''7'') = Inr 7" "py_int (Some ''9'') = Inr 9"
  "py_int None = Inl TypeError"
  by code_simp+

lemma py_float_literals:
  "py_float (Some ''0'') = Inr 0" "py_float (Some ''1'') = Inr 1" "py_float (Some ''2'') = Inr 2"
  "py_float (Some ''3'') = Inr 3" "py_float (Some ''abc'') = Inl ValueError"
  by code_simp+

lemma str_int_literals:
  "str_int 3 = ''3''" "str_int 4 = ''4''" "str_int 9 = ''9''"
  by code_simp+

lemmas mesh_eval =
  get_root_section_def GeoDataFrame_with_crs_def read_groups_def read_walls_def group_elems_def wall_elems_def
  cell_elems_def wall_refs_def xml_find_def xml_findall_def xml_get_def truthy_def
  reconstruct_cell_def cell_polygon_of_def order_polygon_def shapely_Polygon_def
  resolve_group_def is_empty_def mesh_def wall_of_def ref_to_def cell_of_def
  point_xy_def no_rings_def single_ring_def py_int_literals py_float_literals
  str_int_literals

subsection \<open>Group labels\<close>

lemma find_append:
  "List.find P (xs @ ys) = (case List.find P xs of None \<Rightarrow> List.find P ys | Some x \<Rightarrow> Some x)"
  by (induction xs) auto

lemma parse_groups_Inr:
  "parse_groups gs m = Inr gm \<Longrightarrow>
     gm i = (case List.find (\<lambda>g. py_int (xml_get g ''id'') = Inr i) (rev gs) of
               None \<Rightarrow> m i
             | Some g \<Rightarrow>
                 Some (if i = 4 then Some ''cortex''
                       else if i = 3 then Some ''endodermis''
                       else xml_get g ''name''))"
proof (induction gs arbitrary: m)
  case Nil
  then show ?case by simp
next
  case (Cons g rest)
  from Cons.prems obtain j where j: "py_int (xml_get g ''id'') = Inr j"
    and r: "parse_groups rest
              (m(j \<mapsto> (if j = 4 then Some ''cortex''
                        else if j = 3 then Some ''endodermis''
                        else xml_get g ''name''))) = Inr gm"
    by (auto split: sum.splits)
  show ?case
    unfolding Cons.IH [OF r] using j
    by (auto simp: find_append split: option.splits)
qed

lemma read_groups_Inr:
  assumes "read_groups root_elem = Inr gm"
  shows "gm i = (case last_declaration root_elem i of
                   None \<Rightarrow> None
                 | Some g \<Rightarrow>
                     Some (if i = 4 then Some ''cortex''
                           else if i = 3 then Some ''endodermis''
                           else xml_get g ''name''))"
  using parse_groups_Inr [OF assms [unfolded read_groups_def], of i]
  by (simp add: last_declaration_def)

text \<open>
  Claim C4, as amended.  In every mesh that declares group 4, the id 4 resolves to the
  label "cortex", and in every mesh that declares group 3, the id 3 resolves to
  "endodermis", whatever name the declaration gives.
\<close>

theorem reserved_labels_of_declared_groups:
  assumes "read_groups root_elem = Inr group_map"
  shows "(last_declaration root_elem 4 \<noteq> None \<longrightarrow> resolve_group group_map 4 = Some ''cortex'')
       \<and> (last_declaration root_elem 3 \<noteq> None \<longrightarrow> resolve_group group_map 3 = Some ''endodermis'')"
  using read_groups_Inr [OF assms, of 4] read_groups_Inr [OF assms, of 3]
  by (auto simp: resolve_group_def split: option.splits)

lemma renamed_groups_read:
  "read_groups (triangle_mesh renamed_groups ''4'')
     = Inr (Map.empty(4 \<mapsto> Some ''cortex'', 3 \<mapsto> Some ''endodermis''))"
  by (simp add: triangle_mesh_def renamed_groups_def mesh_eval)

theorem reserved_labels_of_declared_groups_witness:
  "resolve_group (Map.empty(4 \<mapsto> Some ''cortex'', 3 \<mapsto> Some ''endodermis'')) 4 = Some ''cortex''
   \<and> resolve_group (Map.empty(4 \<mapsto> Some ''cortex'', 3 \<mapsto> Some ''endodermis'')) 3 = Some ''endodermis''
   \<and> last_declaration (triangle_mesh renamed_groups ''4'') 4
       = Some (Element ''group'' [(''id'', ''4''), (''name'', ''stele'')] [])
   \<and> last_declaration (triangle_mesh renamed_groups ''4'') 3
       = Some (Element ''group'' [(''id'', ''3''), (''name'', ''pith'')] [])"
proof -
  have d: "last_declaration (triangle_mesh renamed_groups ''4'') 4
       = Some (Element ''group'' [(''id'', ''4''), (''name'', ''stele'')] [])"
      "last_declaration (triangle_mesh renamed_groups ''4'') 3
       = Some (Element ''group'' [(''id'', ''3''), (''name'', ''pith'')] [])"
    by (simp_all add: last_declaration_def triangle_mesh_def renamed_groups_def mesh_eval)
  with reserved_labels_of_declared_groups [OF renamed_groups_read] show ?thesis by simp
qed

text \<open>
  Claim C4 as stated fails for a mesh that does not declare group 4: the cell of group 4
  gets the placeholder label.
\<close>

theorem undeclared_group_4_counterexample:
  "get_root_section single_ring (Inr (triangle_mesh [] ''4'')) =
     Inr [\<lparr>id_cell = 1, type = Some ''unknown_group_4'',
           geometry = Polygon [(0, 0), (1, 0), (0, 1)]\<rparr>]"
  by (simp add: triangle_mesh_def mesh_eval)

text \<open>
  Claim C5, as amended.  For every group id other than 3 and 4: a group whose
  declaration carries a name resolves to that name, and an undeclared id resolves to the
  placeholder \<^verbatim>\<open>unknown_group_<id>\<close>; the lookup never raises.
\<close>

theorem other_group_labels:
  assumes "read_groups root_elem = Inr group_map" and "i \<noteq> 3" and "i \<noteq> 4"
  shows "(last_declaration root_elem i = None \<longrightarrow>
            resolve_group group_map i = Some (''unknown_group_'' @ str_int i))
       \<and> (\<forall>g n. last_declaration root_elem i = Some g \<and> xml_get g ''name'' = Some n \<longrightarrow>
            resolve_group group_map i = Some n)"
  using read_groups_Inr [OF assms(1), of i] assms(2,3)
  by (auto simp: resolve_group_def split: option.splits)

lemma stele_groups_read:
  "read_groups (triangle_mesh stele_groups ''7'') = Inr (Map.empty(7 \<mapsto> Some ''stele''))"
  by (simp add: triangle_mesh_def stele_groups_def mesh_eval)

theorem other_group_labels_witness:
  "resolve_group (Map.empty(7 \<mapsto> Some ''stele'')) 9 = Some ''unknown_group_9''
   \<and> resolve_group (Map.empty(7 \<mapsto> Some ''stele'')) 7 = Some ''stele''"
proof -
  have d: "last_declaration (triangle_mesh stele_groups ''7'') 7
       = Some (Element ''group'' [(''id'', ''7''), (''name'', ''stele'')] [])"
      "last_declaration (triangle_mesh stele_groups ''7'') 9 = None"
    by (simp_all add: last_declaration_def triangle_mesh_def stele_groups_def mesh_eval)
  from other_group_labels [OF stele_groups_read, of 9] other_group_labels [OF stele_groups_read, of 7] d
  show ?thesis by (simp add: str_int_literals xml_get_def)
qed

text \<open>
  Claim C5 as stated fails for a declared group without a name: the cell's label is
  Python's \<^verbatim>\<open>None\<close>, not a string and not a placeholder.
\<close>

theorem nameless_group_counterexample:
  "get_root_section single_ring (Inr (triangle_mesh [Element ''group'' [(''id'', ''7'')] []] ''7'')) =
     Inr [\<lparr>id_cell = 1, type = None, geometry = Polygon [(0, 0), (1, 0), (0, 1)]\<rparr>]"
  by (simp add: triangle_mesh_def mesh_eval)

subsection \<open>The wall index\<close>

lemma parse_points_step:
  "parse_points (p # ps) =
     (if has_xy p
      then (case py_float (xml_get p ''x'') of
              Inl e \<Rightarrow> Inl e
            | Inr x \<Rightarrow>
                (case py_float (xml_get p ''y'') of
                   Inl e \<Rightarrow> Inl e
                 | Inr y \<Rightarrow>
                     (case parse_points ps of
                        Inl e \<Rightarrow> Inl e
                      | Inr points \<Rightarrow> Inr ((x, y) # points))))
      else parse_points ps)"
  by (simp add: has_xy_def)

lemma parse_points_Inr:
  "parse_points ps = Inr pts \<Longrightarrow>
     pts = map coords_of (filter has_xy ps) \<and> (\<forall>p \<in> set ps. has_xy p \<longrightarrow> numeric_xy p)"
proof (induction ps arbitrary: pts)
  case Nil
  then show ?case by simp
next
  case (Cons p ps)
  show ?case
  proof (cases "has_xy p")
    case False
    with Cons.prems have "parse_points ps = Inr pts" by (simp only: parse_points_step if_False)
    from Cons.IH [OF this] False show ?thesis by simp
  next
    case True
    with Cons.prems have "(case py_float (xml_get p ''x'') of
              Inl e \<Rightarrow> Inl e
            | Inr x \<Rightarrow>
                (case py_float (xml_get p ''y'') of
                   Inl e \<Rightarrow> Inl e
                 | Inr y \<Rightarrow>
                     (case parse_points ps of
                        Inl e \<Rightarrow> Inl e
                      | Inr points \<Rightarrow> Inr ((x, y) # points)))) = Inr pts"
      by (simp only: parse_points_step if_True)
    then obtain x y pts' where
      xy: "py_float (xml_get p ''x'') = Inr x" "py_float (xml_get p ''y'') = Inr y" and
      r: "parse_points ps = Inr pts'" and pts: "pts = (x, y) # pts'"
      by (auto split: sum.splits)
    from Cons.IH [OF r] xy pts True show ?thesis
      by (simp add: coords_of_def numeric_xy_def)
  qed
qed

lemma parse_points_total:
  "\<forall>p \<in> set ps. has_xy p \<longrightarrow> numeric_xy p \<Longrightarrow>
     parse_points ps = Inr (map coords_of (filter has_xy ps))"
proof (induction ps)
  case Nil
  show ?case by simp
next
  case (Cons p ps)
  then have ih: "parse_points ps = Inr (map coords_of (filter has_xy ps))" by simp
  show ?case
  proof (cases "has_xy p")
    case False
    with ih show ?thesis by (simp only: parse_points_step if_False filter.simps)
  next
    case True
    with Cons.prems have "numeric_xy p" by simp
    then obtain x y where xy: "py_float (xml_get p ''x'') = Inr x" "py_float (xml_get p ''y'') = Inr y"
      by (cases "py_float (xml_get p ''x'')"; cases "py_float (xml_get p ''y'')")
         (auto simp: numeric_xy_def)
    then have c: "coords_of p = (x, y)" by (simp add: coords_of_def)
    have "parse_points (p # ps) = Inr ((x, y) # map coords_of (filter has_xy ps))"
      using True xy ih by (simp only: parse_points_step if_True sum.case)
    with True c show ?thesis by simp
  qed
qed

lemma find_Some_D: "List.find P xs = Some x \<Longrightarrow> x \<in> set xs \<and> P x"
  by (induction xs) (auto split: if_splits)

lemma find_unique:
  assumes "w \<in> set ws" "P w" "\<forall>w' \<in> set ws. P w' \<longrightarrow> w' = w"
  shows "List.find P ws = Some w"
proof (cases "List.find P ws")
  case None
  from None [unfolded find_None_iff] assms(1,2) show ?thesis by blast
next
  case (Some w')
  from find_Some_D [OF Some] assms(3) have "w' = w" by blast
  with Some show ?thesis by simp
qed

lemma parse_walls_step:
  assumes "py_int (xml_get w ''id'') = Inr j"
    and "\<forall>p \<in> set (point_elems w). has_xy p \<longrightarrow> numeric_xy p"
  shows "parse_walls (w # rest) m =
           parse_walls rest (if 2 \<le> length (valid_points w) then m(j \<mapsto> valid_points w) else m)"
proof (cases "xml_find w [''points'']")
  case None
  then have "valid_points w = []" by (simp add: valid_points_def point_elems_def)
  with None assms(1) show ?thesis by simp
next
  case (Some pe)
  with assms(2) have "\<forall>p \<in> set (xml_findall pe ''point''). has_xy p \<longrightarrow> numeric_xy p"
    by (simp add: point_elems_def)
  from parse_points_total [OF this] Some
  have "parse_points (xml_findall pe ''point'') = Inr (valid_points w)"
    by (simp add: valid_points_def point_elems_def)
  with Some assms(1) show ?thesis by simp
qed

lemma parse_walls_Cons_Inr:
  assumes "parse_walls (w # rest) m = Inr wl"
  shows "\<exists>j. py_int (xml_get w ''id'') = Inr j"
    and "\<forall>p \<in> set (point_elems w). has_xy p \<longrightarrow> numeric_xy p"
proof -
  from assms obtain j where j: "py_int (xml_get w ''id'') = Inr j"
    by (cases "py_int (xml_get w ''id'')") auto
  then show "\<exists>j. py_int (xml_get w ''id'') = Inr j" ..
  show "\<forall>p \<in> set (point_elems w). has_xy p \<longrightarrow> numeric_xy p"
  proof (cases "xml_find w [''points'']")
    case None
    then show ?thesis by (simp add: point_elems_def)
  next
    case (Some pe)
    with assms j obtain pts where "parse_points (xml_findall pe ''point'') = Inr pts"
      by (cases "parse_points (xml_findall pe ''point'')") auto
    from parse_points_Inr [OF this] Some show ?thesis by (simp add: point_elems_def)
  qed
qed

lemma parse_walls_Inr:
  "parse_walls ws m = Inr wl \<Longrightarrow>
     wl i = (case List.find (\<lambda>w. py_int (xml_get w ''id'') = Inr i \<and> 2 \<le> length (valid_points w))
                   (rev ws) of
               None \<Rightarrow> m i
             | Some w \<Rightarrow> Some (valid_points w))"
proof (induction ws arbitrary: m)
  case Nil
  then show ?case by simp
next
  case (Cons w rest)
  from parse_walls_Cons_Inr [OF Cons.prems] obtain j where
    j: "py_int (xml_get w ''id'') = Inr j" and
    n: "\<forall>p \<in> set (point_elems w). has_xy p \<longrightarrow> numeric_xy p"
    by blast
  from Cons.prems have r: "parse_walls rest
      (if 2 \<le> length (valid_points w) then m(j \<mapsto> valid_points w) else m) = Inr wl"
    by (simp only: parse_walls_step [OF j n])
  let ?P = "\<lambda>w. py_int (xml_get w ''id'') = Inr i \<and> 2 \<le> length (valid_points w)"
  show ?case
  proof (cases "List.find ?P (rev rest)")
    case (Some w')
    then show ?thesis unfolding Cons.IH [OF r] by (simp add: find_append)
  next
    case None
    then have f: "List.find ?P (rev (w # rest)) = (if ?P w then Some w else None)"
      by (simp add: find_append)
    have "(if 2 \<le> length (valid_points w) then m(j \<mapsto> valid_points w) else m) i
            = (if ?P w then Some (valid_points w) else m i)"
      using j by auto
    then show ?thesis unfolding Cons.IH [OF r] f None by simp
  qed
qed

lemma parse_walls_total:
  "\<forall>w \<in> set ws. \<not> isl (py_int (xml_get w ''id''))
       \<and> (\<forall>p \<in> set (point_elems w). has_xy p \<longrightarrow> numeric_xy p) \<Longrightarrow>
     \<exists>wl. parse_walls ws m = Inr wl"
proof (induction ws arbitrary: m)
  case Nil
  show ?case by simp
next
  case (Cons w rest)
  then obtain j where j: "py_int (xml_get w ''id'') = Inr j"
    by (cases "py_int (xml_get w ''id'')") auto
  from Cons.prems have n: "\<forall>p \<in> set (point_elems w). has_xy p \<longrightarrow> numeric_xy p" by simp
  from Cons.prems have ih: "\<exists>wl. parse_walls rest m' = Inr wl" for m'
    by (intro Cons.IH) simp
  show ?case by (simp only: parse_walls_step [OF j n] ih)
qed

text \<open>
  Claim C2, as amended.  A point whose \<^verbatim>\<open>x\<close> or \<^verbatim>\<open>y\<close> attribute is absent or empty
  is dropped on its own, the other points of its wall are kept in order, and it raises
  nothing; the wall as a whole is left out of the index exactly when fewer than two
  points remain; and the index is built without an exception whenever every wall id is
  an integer literal and every coordinate that is present is a finite float literal.
\<close>

theorem points_without_coordinates_dropped:
  "((\<forall>p \<in> set ps. has_xy p \<longrightarrow> numeric_xy p) \<longrightarrow>
      parse_points ps = Inr (map coords_of (filter has_xy ps)))
   \<and> (read_walls root_elem = Inr wall_linestrings \<and> w \<in> set (wall_elems root_elem)
        \<and> py_int (xml_get w ''id'') = Inr i
        \<and> (\<forall>w' \<in> set (wall_elems root_elem). py_int (xml_get w' ''id'') = Inr i \<longrightarrow> w' = w) \<longrightarrow>
      wall_linestrings i
        = (if 2 \<le> length (valid_points w) then Some (valid_points w) else None))
   \<and> ((\<forall>w \<in> set (wall_elems root_elem). \<not> isl (py_int (xml_get w ''id''))
          \<and> (\<forall>p \<in> set (point_elems w). has_xy p \<longrightarrow> numeric_xy p)) \<longrightarrow>
      \<not> isl (read_walls root_elem))"
proof (intro conjI impI)
  assume "\<forall>p \<in> set ps. has_xy p \<longrightarrow> numeric_xy p"
  then show "parse_points ps = Inr (map coords_of (filter has_xy ps))"
    by (rule parse_points_total)
next
  assume a: "read_walls root_elem = Inr wall_linestrings \<and> w \<in> set (wall_elems root_elem)
        \<and> py_int (xml_get w ''id'') = Inr i
        \<and> (\<forall>w' \<in> set (wall_elems root_elem). py_int (xml_get w' ''id'') = Inr i \<longrightarrow> w' = w)"
  let ?P = "\<lambda>w. py_int (xml_get w ''id'') = Inr i \<and> 2 \<le> length (valid_points w)"
  from a have r: "parse_walls (wall_elems root_elem) Map.empty = Inr wall_linestrings"
    by (simp add: read_walls_def)
  show "wall_linestrings i
        = (if 2 \<le> length (valid_points w) then Some (valid_points w) else None)"
  proof (cases "2 \<le> length (valid_points w)")
    case True
    with a have "List.find ?P (rev (wall_elems root_elem)) = Some w"
      by (intro find_unique) auto
    with True show ?thesis unfolding parse_walls_Inr [OF r, of i] by simp
  next
    case False
    with a have "\<not> (\<exists>x. x \<in> set (rev (wall_elems root_elem)) \<and> ?P x)"
      by auto
    then have "List.find ?P (rev (wall_elems root_elem)) = None"
      by (rule find_None_iff [THEN iffD2])
    with False show ?thesis unfolding parse_walls_Inr [OF r, of i] by simp
  qed
next
  assume "\<forall>w \<in> set (wall_elems root_elem). \<not> isl (py_int (xml_get w ''id''))
          \<and> (\<forall>p \<in> set (point_elems w). has_xy p \<longrightarrow> numeric_xy p)"
  from parse_walls_total [OF this, of Map.empty] show "\<not> isl (read_walls root_elem)"
    by (auto simp: read_walls_def)
qed

lemma missing_coordinate_walls:
  "wall_elems missing_coordinate_mesh =
     [wall_of ''1''
        [point_xy ''0'' ''0'', Element ''point'' [(''x'', ''5'')] [], point_xy ''1'' ''0'',
         point_xy '''' ''7'', point_xy ''0'' ''1''],
      wall_of ''2'' [point_xy ''3'' ''3'', point_xy ''4'' '''']]"
  by (simp add: missing_coordinate_mesh_def wall_elems_def mesh_def xml_find_def xml_findall_def
      wall_of_def)

lemma missing_coordinate_valid_points:
  "valid_points (wall_of ''1''
        [point_xy ''0'' ''0'', Element ''point'' [(''x'', ''5'')] [], point_xy ''1'' ''0'',
         point_xy '''' ''7'', point_xy ''0'' ''1'']) = [(0, 0), (1, 0), (0, 1)]"
  "valid_points (wall_of ''2'' [point_xy ''3'' ''3'', point_xy ''4'' '''']) = [(3, 3)]"
  by (simp_all add: valid_points_def point_elems_def has_xy_def coords_of_def mesh_eval)

lemma missing_coordinate_read:
  "read_walls missing_coordinate_mesh = Inr (Map.empty(1 \<mapsto> [(0, 0), (1, 0), (0, 1)]))"
  by (simp add: missing_coordinate_mesh_def mesh_eval)

theorem points_without_coordinates_dropped_witness:
  "parse_points [point_xy ''0'' ''0'', Element ''point'' [(''x'', ''5'')] [],
                 point_xy ''1'' ''0'', point_xy '''' ''7'', point_xy ''0'' ''1'']
     = Inr [(0, 0), (1, 0), (0, 1)]
   \<and> projr (read_walls missing_coordinate_mesh) 1 = Some [(0, 0), (1, 0), (0, 1)]
   \<and> projr (read_walls missing_coordinate_mesh) 2 = None
   \<and> \<not> isl (read_walls missing_coordinate_mesh)"
proof -
  let ?ps = "[point_xy ''0'' ''0'', Element ''point'' [(''x'', ''5'')] [],
              point_xy ''1'' ''0'', point_xy '''' ''7'', point_xy ''0'' ''1'']"
  let ?w1 = "wall_of ''1'' ?ps"
  let ?w2 = "wall_of ''2'' [point_xy ''3'' ''3'', point_xy ''4'' '''']"
  let ?wl = "Map.empty((1::int) \<mapsto> [(0, 0), (1, 0), (0::real, 1::real)])"
  have ids: "py_int (xml_get ?w1 ''id'') = Inr 1" "py_int (xml_get ?w2 ''id'') = Inr 2"
    by (simp_all add: mesh_eval)
  have pts: "point_elems ?w1 = ?ps"
    "point_elems ?w2 = [point_xy ''3'' ''3'', point_xy ''4'' '''']"
    by (simp_all add: point_elems_def mesh_eval)
  have num: "\<forall>p \<in> set ?ps. has_xy p \<longrightarrow> numeric_xy p"
    "\<forall>p \<in> set [point_xy ''3'' ''3'', point_xy ''4'' '''']. has_xy p \<longrightarrow> numeric_xy p"
    by (simp_all add: has_xy_def numeric_xy_def mesh_eval)
  have vp: "map coords_of (filter has_xy ?ps) = [(0, 0), (1, 0), (0, 1)]"
    using missing_coordinate_valid_points(1) by (simp add: valid_points_def pts)
  have a1: "read_walls missing_coordinate_mesh = Inr ?wl \<and> ?w1 \<in> set (wall_elems missing_coordinate_mesh)
        \<and> py_int (xml_get ?w1 ''id'') = Inr 1
        \<and> (\<forall>w' \<in> set (wall_elems missing_coordinate_mesh). py_int (xml_get w' ''id'') = Inr 1 \<longrightarrow> w' = ?w1)"
    by (simp add: missing_coordinate_read missing_coordinate_walls ids)
  have a2: "read_walls missing_coordinate_mesh = Inr ?wl \<and> ?w2 \<in> set (wall_elems missing_coordinate_mesh)
        \<and> py_int (xml_get ?w2 ''id'') = Inr 2
        \<and> (\<forall>w' \<in> set (wall_elems missing_coordinate_mesh). py_int (xml_get w' ''id'') = Inr 2 \<longrightarrow> w' = ?w2)"
    by (simp add: missing_coordinate_read missing_coordinate_walls ids)
  have a3: "\<forall>w \<in> set (wall_elems missing_coordinate_mesh). \<not> isl (py_int (xml_get w ''id''))
          \<and> (\<forall>p \<in> set (point_elems w). has_xy p \<longrightarrow> numeric_xy p)"
    using num by (simp add: missing_coordinate_walls ids pts)
  note t = points_without_coordinates_dropped
  from t [of ?ps, THEN conjunct1, THEN mp, OF num(1)]
  have c1: "parse_points ?ps = Inr [(0, 0), (1, 0), (0, 1)]" by (simp only: vp)
  from t [of ?ps missing_coordinate_mesh ?wl ?w1 1, THEN conjunct2, THEN conjunct1, THEN mp, OF a1]
  have c2: "?wl (1::int) = Some [(0, 0), (1, 0), (0, 1)]"
    by (simp add: missing_coordinate_valid_points)
  from t [of ?ps missing_coordinate_mesh ?wl ?w2 2, THEN conjunct2, THEN conjunct1, THEN mp, OF a2]
  have c3: "?wl (2::int) = None"
    by (simp add: missing_coordinate_valid_points)
  from t [of ?ps missing_coordinate_mesh ?wl ?w1 1, THEN conjunct2, THEN conjunct2, THEN mp, OF a3]
  have c4: "\<not> isl (read_walls missing_coordinate_mesh)" .
  from c1 c2 c3 c4 show ?thesis by (simp add: missing_coordinate_read)
qed

lemma bad_number_walls_raise: "read_walls bad_number_mesh = Inl ValueError"
  by (simp add: bad_number_mesh_def mesh_eval)

text \<open>
  Claim C2 as stated fails for a coordinate that is present and not a number: the point
  is not dropped, \<^verbatim>\<open>float\<close> raises ValueError, and the exception leaves
  \<^verbatim>\<open>get_root_section\<close>, so the sound wall 2 is lost with it.
\<close>

theorem unparsable_coordinate_counterexample:
  "get_root_section no_rings (Inr bad_number_mesh) = Inl ValueError"
  by (simp add: bad_number_mesh_def mesh_eval)

lemma two_point_cell_raises:
  "reconstruct_cell no_rings Map.empty (Map.empty(1 \<mapsto> [(0, 0), (1, 0)]))
     (cell_of ''2'' ''9'' [''1'']) = Inl ValueError"
  by (simp add: mesh_eval)

text \<open>
  Claim C6.  The mesh with a single open wall of two points, referred to by cell 2 of
  the undeclared group 9: \<^verbatim>\<open>polygonize\<close> finds no ring, the fallback hands two
  points to the Polygon constructor, and its ValueError leaves \<^verbatim>\<open>get_root_section\<close>.
\<close>

theorem two_point_fallback_raises:
  "get_root_section no_rings (Inr two_point_mesh) = Inl ValueError"
  by (simp add: two_point_mesh_def mesh_eval)

subsection \<open>The fallback polygon\<close>

lemma gather_walls_concat:
  "gather_walls wl refs = Inr (ls, ps) \<Longrightarrow> ps = concat ls"
  by (induction refs arbitrary: ls ps) (auto split: sum.splits option.splits)

lemma order_polygon_three:
  "3 \<le> length points \<Longrightarrow>
     order_polygon points = Inr (Polygon (sort_key (angle_about (centroid points)) points))"
  by (auto simp: order_polygon_def shapely_Polygon_def)

text \<open>
  Claim C7, as amended.  For every cell whose gathered walls yield no ring under
  polygonization and contribute at least three points, counted with repetition, the
  output polygon is built by sorting all contributed points by ascending angle
  (two-argument arctangent) around their arithmetic centroid, the cell's type is the tag
  "fallback" whatever its group label, and the polygon has as many vertices as the walls
  contributed points, a point shared by two walls counting twice.
\<close>

theorem fallback_polygon:
  assumes "py_int (xml_get cell_elem ''id'') = Inr cell_id"
    and "py_int (xml_get cell_elem ''group'') = Inr group_id"
    and "gather_walls wall_linestrings (wall_refs cell_elem) = Inr (cell_lines, cell_points)"
    and "cell_lines \<noteq> []"
    and "polygonize cell_lines = []"
    and "3 \<le> length cell_points"
  shows "\<exists>ordered.
           reconstruct_cell polygonize group_map wall_linestrings cell_elem
             = Inr (Some \<lparr>id_cell = cell_id, type = Some ''fallback'',
                          geometry = Polygon ordered\<rparr>)
         \<and> cell_points = concat cell_lines
         \<and> mset ordered = mset cell_points
         \<and> sorted (map (angle_about (centroid cell_points)) ordered)
         \<and> length ordered = length cell_points"
proof -
  let ?ordered = "sort_key (angle_about (centroid cell_points)) cell_points"
  from assms(6) have ne: "?ordered \<noteq> []" by (cases cell_points) auto
  have "cell_polygon_of polygonize (resolve_group group_map group_id) cell_lines cell_points
          = Inr (Some (Polygon ?ordered), Some ''fallback'')"
    using assms(4,5) order_polygon_three [OF assms(6)] by (simp add: cell_polygon_of_def)
  with assms(1,2,3) ne
  have "reconstruct_cell polygonize group_map wall_linestrings cell_elem
          = Inr (Some \<lparr>id_cell = cell_id, type = Some ''fallback'', geometry = Polygon ?ordered\<rparr>)"
    by (simp add: reconstruct_cell_def is_empty_def)
  moreover from gather_walls_concat [OF assms(3)] have "cell_points = concat cell_lines" .
  ultimately show ?thesis
    by (intro exI [of _ ?ordered]) simp
qed

lemma open_polyline_gather:
  "gather_walls (Map.empty(1 \<mapsto> [(0, 0), (1, 0)], 2 \<mapsto> [(1, 0), (1, 1)]))
     (wall_refs (cell_of ''1'' ''4'' [''1'', ''2'']))
     = Inr ([[(0, 0), (1, 0)], [(1, 0), (1, 1)]], [(0, 0), (1, 0), (1, 0), (1, 1)])"
  by (simp add: mesh_eval)

theorem fallback_polygon_witness:
  "\<exists>ordered.
     reconstruct_cell no_rings Map.empty
       (Map.empty(1 \<mapsto> [(0, 0), (1, 0)], 2 \<mapsto> [(1, 0), (1, 1)]))
       (cell_of ''1'' ''4'' [''1'', ''2''])
       = Inr (Some \<lparr>id_cell = 1, type = Some ''fallback'', geometry = Polygon ordered\<rparr>)
     \<and> mset ordered = mset [(0, 0), (1, 0), (1, 0), (1, 1)]
     \<and> sorted (map (angle_about (centroid [(0, 0), (1, 0), (1, 0), (1, 1)])) ordered)
     \<and> length ordered = 4"
proof -
  have i: "py_int (xml_get (cell_of ''1'' ''4'' [''1'', ''2'']) ''id'') = Inr 1"
    "py_int (xml_get (cell_of ''1'' ''4'' [''1'', ''2'']) ''group'') = Inr 4"
    by (simp_all add: mesh_eval)
  from fallback_polygon [OF i open_polyline_gather, of no_rings Map.empty]
  obtain ordered where
    "reconstruct_cell no_rings Map.empty
       (Map.empty(1 \<mapsto> [(0, 0), (1, 0)], 2 \<mapsto> [(1, 0), (1, 1)]))
       (cell_of ''1'' ''4'' [''1'', ''2''])
       = Inr (Some \<lparr>id_cell = 1, type = Some ''fallback'', geometry = Polygon ordered\<rparr>)"
    "mset ordered = mset [(0, 0), (1, 0), (1, 0), (1, 1)]"
    "sorted (map (angle_about (centroid [(0, 0), (1, 0), (1, 0), (1, 1)])) ordered)"
    "length ordered = 4"
    by (auto simp: no_rings_def)
  then show ?thesis by blast
qed

text \<open>
  Claim C7 as stated fails on the vertex count: the two walls of the open polyline share
  the point \<open>(1, 0)\<close>, so they contribute three distinct points, and the polygon has four
  vertices.
\<close>

theorem shared_point_counted_twice_counterexample:
  "get_root_section no_rings (Inr open_polyline_mesh) =
     Inr [\<lparr>id_cell = 1, type = Some ''fallback'',
           geometry = Polygon (sort_key (angle_about (centroid [(0, 0), (1, 0), (1, 0), (1, 1)]))
                                [(0, 0), (1, 0), (1, 0), (1, 1)])\<rparr>]
   \<and> length (sort_key (angle_about (centroid [(0, 0), (1, 0), (1, 0), (1, 1)]))
               [(0, 0), (1, 0), (1, 0), (1 :: real, 1 :: real)]) = 4
   \<and> card (set [(0, 0), (1, 0), (1, 0), (1 :: real, 1 :: real)]) = 3"
  by (simp add: open_polyline_mesh_def mesh_eval)

subsection \<open>The section\<close>

lemma py_int_5: "py_int (Some ''5'') = Inr 5"
  by code_simp

lemma reconstruct_cell_Some:
  assumes "reconstruct_cell P gm wl c = Inr (Some r)"
  shows "py_int (xml_get c ''id'') = Inr (id_cell r)"
    and "\<not> is_empty (geometry r)"
    and "\<exists>ls ps. gather_walls wl (wall_refs c) = Inr (ls, ps) \<and> ls \<noteq> []"
proof -
  from assms obtain i g ls ps poly lab where
    i: "py_int (xml_get c ''id'') = Inr i" and
    g: "py_int (xml_get c ''group'') = Inr g" and
    w: "gather_walls wl (wall_refs c) = Inr (ls, ps)" and
    p: "cell_polygon_of P (resolve_group gm g) ls ps = Inr (Some poly, lab)" and
    e: "\<not> is_empty poly" and
    r: "r = \<lparr>id_cell = i, type = lab, geometry = poly\<rparr>"
    by (auto simp: reconstruct_cell_def split: sum.splits option.splits if_splits)
  from i r show "py_int (xml_get c ''id'') = Inr (id_cell r)" by simp
  from e r show "\<not> is_empty (geometry r)" by simp
  from p have "ls \<noteq> []" by (auto simp: cell_polygon_of_def split: if_splits)
  with w show "\<exists>ls ps. gather_walls wl (wall_refs c) = Inr (ls, ps) \<and> ls \<noteq> []" by blast
qed

lemma parse_cells_Inr:
  "parse_cells P gm wl cs = Inr rs \<Longrightarrow>
     \<forall>r \<in> set rs. \<exists>c \<in> set cs. reconstruct_cell P gm wl c = Inr (Some r)"
proof (induction cs arbitrary: rs)
  case Nil
  then show ?case by simp
next
  case (Cons c cs)
  from Cons.prems obtain o1 rs' where
    o: "reconstruct_cell P gm wl c = Inr o1" and
    r: "parse_cells P gm wl cs = Inr rs'" and
    rs: "rs = (case o1 of None \<Rightarrow> rs' | Some x \<Rightarrow> x # rs')"
    by (auto split: sum.splits)
  from Cons.IH [OF r] o rs show ?case by (cases o1) auto
qed

lemma parse_cells_distinct:
  "parse_cells P gm wl cs = Inr rs \<Longrightarrow>
     distinct (map (\<lambda>c. py_int (xml_get c ''id'')) cs) \<Longrightarrow> distinct (map id_cell rs)"
proof (induction cs arbitrary: rs)
  case Nil
  then show ?case by simp
next
  case (Cons c cs)
  from Cons.prems(1) obtain o1 rs' where
    o: "reconstruct_cell P gm wl c = Inr o1" and
    r: "parse_cells P gm wl cs = Inr rs'" and
    rs: "rs = (case o1 of None \<Rightarrow> rs' | Some x \<Rightarrow> x # rs')"
    by (auto split: sum.splits)
  from Cons.prems(2) have d: "distinct (map (\<lambda>c. py_int (xml_get c ''id'')) cs)"
    and n: "py_int (xml_get c ''id'') \<notin> (\<lambda>c. py_int (xml_get c ''id'')) ` set cs"
    by simp_all
  from Cons.IH [OF r d] have ih: "distinct (map id_cell rs')" .
  show ?case
  proof (cases o1)
    case None
    with rs ih show ?thesis by simp
  next
    case (Some x)
    from reconstruct_cell_Some(1) [OF o [unfolded Some]]
    have x: "py_int (xml_get c ''id'') = Inr (id_cell x)" .
    have "id_cell x \<notin> id_cell ` set rs'"
    proof
      assume "id_cell x \<in> id_cell ` set rs'"
      then obtain y where y: "y \<in> set rs'" "id_cell y = id_cell x" by auto
      from parse_cells_Inr [OF r] y(1) obtain c' where
        c': "c' \<in> set cs" "reconstruct_cell P gm wl c' = Inr (Some y)" by blast
      from reconstruct_cell_Some(1) [OF c'(2)] y(2) x
      have "py_int (xml_get c' ''id'') = py_int (xml_get c ''id'')" by simp
      moreover from c'(1) have "py_int (xml_get c' ''id'') \<in> (\<lambda>c. py_int (xml_get c ''id'')) ` set cs"
        by (rule imageI)
      ultimately show False using n by simp
    qed
    with Some rs ih show ?thesis by simp
  qed
qed

lemma distinct_map_eqD:
  "distinct (map f xs) \<Longrightarrow> x \<in> set xs \<Longrightarrow> y \<in> set xs \<Longrightarrow> f x = f y \<Longrightarrow> x = y"
  by (auto simp: distinct_map dest: inj_onD)

lemma sum_list_all_zero:
  "\<forall>x \<in> set xs. f x = (0::real) \<Longrightarrow> sum_list (map f xs) = 0"
  by (induction xs) auto

lemma ring_area_flat:
  assumes "\<forall>p \<in> set ps. snd p = 0"
  shows "ring_area ps = 0"
proof -
  have "\<forall>pq \<in> set (zip ps (rotate1 ps)). (case pq of (p, q) \<Rightarrow> fst p * snd q - fst q * snd p) = 0"
  proof
    fix pq assume a: "pq \<in> set (zip ps (rotate1 ps))"
    obtain p q where pq: "pq = (p, q)" by (cases pq)
    from a pq have "p \<in> set ps" "q \<in> set (rotate1 ps)"
      by (auto dest: set_zip_leftD set_zip_rightD)
    with pq have "fst pq \<in> set ps" "snd pq \<in> set ps" by simp_all
    with assms have "snd (fst pq) = 0" "snd (snd pq) = 0" by auto
    then show "(case pq of (p, q) \<Rightarrow> fst p * snd q - fst q * snd p) = 0"
      by (simp add: case_prod_unfold)
  qed
  then have "sum_list (map (\<lambda>(p, q). fst p * snd q - fst q * snd p) (zip ps (rotate1 ps))) = 0"
    by (rule sum_list_all_zero)
  then show ?thesis by (simp add: ring_area_def)
qed

text \<open>
  Claim C10, as amended.  For every mesh input on which \<^verbatim>\<open>get_root_section\<close> returns
  a section and whose declared cell ids are distinct: the cell ids of the entries are
  distinct, no entry carries an empty polygon (an entry always carries a polygon), and a
  cell with no contributing wall has no entry.  For a source that cannot be parsed the
  section is empty, without an error.
\<close>

theorem section_invariant:
  "(get_root_section polygonize (Inr root_elem) = Inr records
      \<and> distinct (map (\<lambda>c. py_int (xml_get c ''id'')) (cell_elems root_elem)) \<longrightarrow>
      distinct (map id_cell records)
      \<and> (\<forall>r \<in> set records. \<not> is_empty (geometry r))
      \<and> (\<forall>wall_linestrings c i.
            read_walls root_elem = Inr wall_linestrings \<and> c \<in> set (cell_elems root_elem)
            \<and> gather_walls wall_linestrings (wall_refs c) = Inr ([], [])
            \<and> py_int (xml_get c ''id'') = Inr i \<longrightarrow>
            i \<notin> id_cell ` set records))
   \<and> get_root_section polygonize (Inl e) = Inr []"
proof (intro conjI impI)
  assume a: "get_root_section polygonize (Inr root_elem) = Inr records
      \<and> distinct (map (\<lambda>c. py_int (xml_get c ''id'')) (cell_elems root_elem))"
  then obtain gm wl where
    g: "read_groups root_elem = Inr gm" and
    w: "read_walls root_elem = Inr wl" and
    p: "parse_cells polygonize gm wl (cell_elems root_elem) = Inr records"
    by (auto simp: get_root_section_def GeoDataFrame_with_crs_def split: sum.splits if_splits)
  from a have d: "distinct (map (\<lambda>c. py_int (xml_get c ''id'')) (cell_elems root_elem))" ..
  from parse_cells_distinct [OF p d] show "distinct (map id_cell records)" .
  show "\<forall>r \<in> set records. \<not> is_empty (geometry r)"
  proof
    fix r assume "r \<in> set records"
    with parse_cells_Inr [OF p] obtain c where
      "reconstruct_cell polygonize gm wl c = Inr (Some r)" by blast
    from reconstruct_cell_Some(2) [OF this] show "\<not> is_empty (geometry r)" .
  qed
  show "\<forall>wall_linestrings c i.
            read_walls root_elem = Inr wall_linestrings \<and> c \<in> set (cell_elems root_elem)
            \<and> gather_walls wall_linestrings (wall_refs c) = Inr ([], [])
            \<and> py_int (xml_get c ''id'') = Inr i \<longrightarrow>
            i \<notin> id_cell ` set records"
  proof (intro allI impI notI)
    fix wl' c i
    assume b: "read_walls root_elem = Inr wl' \<and> c \<in> set (cell_elems root_elem)
            \<and> gather_walls wl' (wall_refs c) = Inr ([], [])
            \<and> py_int (xml_get c ''id'') = Inr i"
      and m: "i \<in> id_cell ` set records"
    from b w have wl': "wl' = wl" by simp
    from m obtain r where r: "r \<in> set records" "id_cell r = i" by auto
    from parse_cells_Inr [OF p] r(1) obtain c' where
      c': "c' \<in> set (cell_elems root_elem)" "reconstruct_cell polygonize gm wl c' = Inr (Some r)"
      by blast
    from reconstruct_cell_Some(1) [OF c'(2)] r(2) b
    have "py_int (xml_get c' ''id'') = py_int (xml_get c ''id'')" by simp
    with d c'(1) b have "c' = c" by (intro distinct_map_eqD [OF d]) auto
    with reconstruct_cell_Some(3) [OF c'(2)] b wl' show False by auto
  qed
next
  show "get_root_section polygonize (Inl e) = Inr []"
    by (simp add: get_root_section_def)
qed

lemma two_cell_eval:
  "get_root_section single_ring (Inr two_cell_mesh) =
     Inr [\<lparr>id_cell = 1, type = Some ''stele'', geometry = Polygon [(0, 0), (1, 0), (0, 1)]\<rparr>]"
  by (simp add: two_cell_mesh_def stele_groups_def mesh_eval py_int_5)

lemma two_cell_cells:
  "cell_elems two_cell_mesh = [cell_of ''1'' ''7'' [''1''], cell_of ''2'' ''7'' [''5'']]"
  by (simp add: two_cell_mesh_def cell_elems_def mesh_def xml_find_def xml_findall_def
      cell_of_def)

lemma two_cell_walls:
  "read_walls two_cell_mesh = Inr (Map.empty(1 \<mapsto> [(0, 0), (1, 0), (0, 1), (0, 0)]))"
  by (simp add: two_cell_mesh_def mesh_eval)

theorem section_invariant_witness:
  "distinct (map id_cell (projr (get_root_section single_ring (Inr two_cell_mesh))))
   \<and> \<not> is_empty (geometry (hd (projr (get_root_section single_ring (Inr two_cell_mesh)))))
   \<and> 2 \<notin> id_cell ` set (projr (get_root_section single_ring (Inr two_cell_mesh)))
   \<and> map id_cell (projr (get_root_section single_ring (Inr two_cell_mesh))) = [1]
   \<and> get_root_section single_ring (Inl ParseError) = Inr []"
proof -
  let ?r = "\<lparr>id_cell = 1, type = Some ''stele'', geometry = Polygon [(0, 0), (1, 0), (0, 1)]\<rparr>"
  let ?wl = "Map.empty((1::int) \<mapsto> [(0, 0), (1, 0), (0, 1), (0::real, 0::real)])"
  have ids: "py_int (xml_get (cell_of ''1'' ''7'' [''1'']) ''id'') = Inr 1"
    "py_int (xml_get (cell_of ''2'' ''7'' [''5'']) ''id'') = Inr 2"
    by (simp_all add: mesh_eval)
  have d: "get_root_section single_ring (Inr two_cell_mesh) = Inr [?r]
      \<and> distinct (map (\<lambda>c. py_int (xml_get c ''id'')) (cell_elems two_cell_mesh))"
    by (simp add: two_cell_eval two_cell_cells ids)
  have g: "gather_walls ?wl (wall_refs (cell_of ''2'' ''7'' [''5''])) = Inr ([], [])"
    by (simp add: mesh_eval py_int_5)
  note t = section_invariant [of single_ring two_cell_mesh "[?r]" ParseError]
  from t [THEN conjunct1, THEN mp, OF d]
  have c1: "distinct (map id_cell [?r])" and c2: "\<forall>r \<in> set [?r]. \<not> is_empty (geometry r)"
    and c3: "\<forall>wall_linestrings c i.
            read_walls two_cell_mesh = Inr wall_linestrings \<and> c \<in> set (cell_elems two_cell_mesh)
            \<and> gather_walls wall_linestrings (wall_refs c) = Inr ([], [])
            \<and> py_int (xml_get c ''id'') = Inr i \<longrightarrow>
            i \<notin> id_cell ` set [?r]"
    by blast+
  from c3 [rule_format, of ?wl "cell_of ''2'' ''7'' [''5'']" 2] two_cell_walls g ids
  have c3': "2 \<notin> id_cell ` set [?r]" by (simp add: two_cell_cells)
  from t [THEN conjunct2]
  have c4: "get_root_section single_ring (Inl ParseError) = Inr []" .
  from c1 c2 c3' c4 show ?thesis by (simp add: two_cell_eval)
qed

text \<open>
  Claim C10 as stated fails on zero-area polygons: the filter of line 115 tests
  \<^verbatim>\<open>is_empty\<close> only.  The three points of the collinear wall lie on one line, the
  fallback makes a polygon of them, and the section carries it although it encloses no
  area.
\<close>

theorem zero_area_entry_counterexample:
  "get_root_section no_rings (Inr collinear_mesh) =
     Inr [\<lparr>id_cell = 1, type = Some ''fallback'',
           geometry = Polygon (sort_key (angle_about (centroid [(0, 0), (1, 0), (2, 0)]))
                                [(0, 0), (1, 0), (2, 0)])\<rparr>]
   \<and> ring_area (sort_key (angle_about (centroid [(0, 0), (1, 0), (2, 0)]))
                  [(0, 0), (1, 0), (2 :: real, 0 :: real)]) = 0"
proof -
  have "ring_area (sort_key (angle_about (centroid [(0, 0), (1, 0), (2, 0)]))
                  [(0, 0), (1, 0), (2 :: real, 0 :: real)]) = 0"
    by (rule ring_area_flat) simp
  moreover have "get_root_section no_rings (Inr collinear_mesh) =
     Inr [\<lparr>id_cell = 1, type = Some ''fallback'',
           geometry = Polygon (sort_key (angle_about (centroid [(0, 0), (1, 0), (2, 0)]))
                                [(0, 0), (1, 0), (2, 0)])\<rparr>]"
    by (simp add: collinear_mesh_def mesh_eval)
  ultimately show ?thesis by (simp only: simp_thms)
qed

subsection \<open>Exceptions\<close>

lemma parse_groups_total:
  "\<forall>g \<in> set gs. integer_attr g ''id'' \<Longrightarrow> \<exists>gm. parse_groups gs m = Inr gm"
proof (induction gs arbitrary: m)
  case Nil
  show ?case by simp
next
  case (Cons g gs)
  then obtain j where j: "py_int (xml_get g ''id'') = Inr j"
    by (cases "py_int (xml_get g ''id'')") (auto simp: integer_attr_def)
  from Cons.prems have "\<exists>gm. parse_groups gs m' = Inr gm" for m'
    by (intro Cons.IH) simp
  with j show ?case by simp
qed

lemma gather_walls_total:
  "\<forall>r \<in> set refs. integer_attr r ''id'' \<Longrightarrow> \<exists>ls ps. gather_walls wl refs = Inr (ls, ps)"
proof (induction refs)
  case Nil
  show ?case by simp
next
  case (Cons r refs)
  then obtain j where j: "py_int (xml_get r ''id'') = Inr j"
    by (cases "py_int (xml_get r ''id'')") (auto simp: integer_attr_def)
  from Cons obtain ls ps where "gather_walls wl refs = Inr (ls, ps)" by auto
  with j show ?case by (cases "wl j") auto
qed

lemma reconstruct_cell_total:
  assumes "integer_attr c ''id''" and "integer_attr c ''group''"
    and "gather_walls wl (wall_refs c) = Inr (ls, ps)"
    and "ls \<noteq> [] \<and> P ls = [] \<longrightarrow> 3 \<le> length ps"
  shows "\<exists>r. reconstruct_cell P gm wl c = Inr r"
proof -
  from assms(1) obtain i where i: "py_int (xml_get c ''id'') = Inr i"
    by (cases "py_int (xml_get c ''id'')") (auto simp: integer_attr_def)
  from assms(2) obtain g where g: "py_int (xml_get c ''group'') = Inr g"
    by (cases "py_int (xml_get c ''group'')") (auto simp: integer_attr_def)
  have "\<exists>poly lab. cell_polygon_of P (resolve_group gm g) ls ps = Inr (poly, lab)"
  proof (cases "ls \<noteq> [] \<and> P ls = []")
    case True
    with assms(4) have "3 \<le> length ps" by simp
    from order_polygon_three [OF this] True show ?thesis
      by (simp add: cell_polygon_of_def)
  next
    case False
    then show ?thesis
      by (cases "P ls") (auto simp: cell_polygon_of_def)
  qed
  then obtain poly lab where "cell_polygon_of P (resolve_group gm g) ls ps = Inr (poly, lab)"
    by blast
  with i g assms(3) show ?thesis
    by (cases poly) (auto simp: reconstruct_cell_def)
qed

lemma parse_cells_total:
  "\<forall>c \<in> set cs. \<exists>r. reconstruct_cell P gm wl c = Inr r \<Longrightarrow>
     \<exists>rs. parse_cells P gm wl cs = Inr rs"
proof (induction cs)
  case Nil
  show ?case by simp
next
  case (Cons c cs)
  then obtain r rs where "reconstruct_cell P gm wl c = Inr r" "parse_cells P gm wl cs = Inr rs"
    by auto
  then show ?case by simp
qed

lemma reconstruct_cell_yields:
  assumes "integer_attr c ''id''" and "integer_attr c ''group''"
    and "gather_walls wl (wall_refs c) = Inr (ls, ps)"
    and "ls \<noteq> []"
    and "P ls = [] \<longrightarrow> 3 \<le> length ps"
    and "case P ls of [] \<Rightarrow> True | p # _ \<Rightarrow> \<not> is_empty p"
  shows "\<exists>r. reconstruct_cell P gm wl c = Inr (Some r)"
proof -
  from assms(1) obtain i where i: "py_int (xml_get c ''id'') = Inr i"
    by (cases "py_int (xml_get c ''id'')") (auto simp: integer_attr_def)
  from assms(2) obtain g where g: "py_int (xml_get c ''group'') = Inr g"
    by (cases "py_int (xml_get c ''group'')") (auto simp: integer_attr_def)
  have "\<exists>poly lab. cell_polygon_of P (resolve_group gm g) ls ps = Inr (Some poly, lab)
          \<and> \<not> is_empty poly"
  proof (cases "P ls")
    case Nil
    with assms(5) have three: "3 \<le> length ps" by simp
    then have "sort_key (angle_about (centroid ps)) ps \<noteq> []" by (cases ps) auto
    with order_polygon_three [OF three] Nil assms(4) show ?thesis
      by (simp add: cell_polygon_of_def is_empty_def)
  next
    case (Cons p rest)
    with assms(4,6) show ?thesis by (simp add: cell_polygon_of_def)
  qed
  then obtain poly lab where
    "cell_polygon_of P (resolve_group gm g) ls ps = Inr (Some poly, lab)" "\<not> is_empty poly"
    by blast
  with i g assms(3) show ?thesis by (simp add: reconstruct_cell_def)
qed

lemma parse_cells_member:
  "parse_cells P gm wl cs = Inr rs \<Longrightarrow> c \<in> set cs \<Longrightarrow>
     reconstruct_cell P gm wl c = Inr (Some r) \<Longrightarrow> r \<in> set rs"
proof (induction cs arbitrary: rs)
  case Nil
  then show ?case by simp
next
  case (Cons c' cs)
  from Cons.prems(1) obtain o1 rs' where
    o: "reconstruct_cell P gm wl c' = Inr o1" and
    r: "parse_cells P gm wl cs = Inr rs'" and
    rs: "rs = (case o1 of None \<Rightarrow> rs' | Some x \<Rightarrow> x # rs')"
    by (auto split: sum.splits)
  show ?case
  proof (cases "c = c'")
    case True
    with Cons.prems(3) o rs show ?thesis by simp
  next
    case False
    with Cons.prems(2) have "c \<in> set cs" by simp
    from Cons.IH [OF r this Cons.prems(3)] rs show ?thesis by (cases o1) auto
  qed
qed

text \<open>
  Line 125 on a document that yields no record: the frame of no rows raises ValueError,
  where the parse failure of line 36 returns an empty frame.
\<close>

lemma no_record_raises:
  "get_root_section polygonize (Inr no_record_mesh) = Inl ValueError"
  by (simp add: no_record_mesh_def stele_groups_def mesh_eval py_int_5)

text \<open>
  Claim C3, as amended.  For every mesh source that cannot be parsed,
  \<^verbatim>\<open>get_root_section\<close> returns the empty section and raises nothing.  For a parsed
  document it returns a section, which is not empty, and raises nothing whenever the
  element content is well-formed (every id and group attribute it converts is an
  integer literal, every coordinate that is present is a finite float literal), no cell
  sends fewer than three points to the fallback, and some cell gets a polygon.
\<close>

theorem parse_failure_is_empty_section:
  "get_root_section polygonize (Inl e) = Inr []
   \<and> (well_formed_content root_elem \<and> fallback_has_three_points polygonize root_elem
        \<and> some_cell_has_polygon polygonize root_elem \<longrightarrow>
        (\<exists>records. get_root_section polygonize (Inr root_elem) = Inr records \<and> records \<noteq> []))"
proof (intro conjI impI)
  show "get_root_section polygonize (Inl e) = Inr []"
    by (simp add: get_root_section_def)
next
  assume a: "well_formed_content root_elem \<and> fallback_has_three_points polygonize root_elem
        \<and> some_cell_has_polygon polygonize root_elem"
  then have wf: "well_formed_content root_elem"
    and fb: "fallback_has_three_points polygonize root_elem"
    and sc: "some_cell_has_polygon polygonize root_elem"
    by simp_all
  from wf have "\<forall>g \<in> set (group_elems root_elem). integer_attr g ''id''"
    by (simp add: well_formed_content_def)
  from parse_groups_total [OF this] obtain gm where g: "read_groups root_elem = Inr gm"
    by (auto simp: read_groups_def)
  from wf have "\<forall>w \<in> set (wall_elems root_elem). \<not> isl (py_int (xml_get w ''id''))
       \<and> (\<forall>p \<in> set (point_elems w). has_xy p \<longrightarrow> numeric_xy p)"
    by (simp add: well_formed_content_def integer_attr_def)
  from parse_walls_total [OF this] obtain wl where w: "read_walls root_elem = Inr wl"
    by (auto simp: read_walls_def)
  have "\<forall>c \<in> set (cell_elems root_elem). \<exists>r. reconstruct_cell polygonize gm wl c = Inr r"
  proof
    fix c assume c: "c \<in> set (cell_elems root_elem)"
    with wf have i: "integer_attr c ''id''" "integer_attr c ''group''"
      and r: "\<forall>r \<in> set (wall_refs c). integer_attr r ''id''"
      by (simp_all add: well_formed_content_def)
    from gather_walls_total [OF r] obtain ls ps where
      gw: "gather_walls wl (wall_refs c) = Inr (ls, ps)" by blast
    from fb w c gw have "ls \<noteq> [] \<and> polygonize ls = [] \<longrightarrow> 3 \<le> length ps"
      by (auto simp: fallback_has_three_points_def)
    then show "\<exists>r. reconstruct_cell polygonize gm wl c = Inr r"
      by (rule reconstruct_cell_total [OF i gw])
  qed
  from parse_cells_total [OF this] obtain rs where
    p: "parse_cells polygonize gm wl (cell_elems root_elem) = Inr rs" ..
  from sc w obtain c where
    c: "c \<in> set (cell_elems root_elem)" and
    x: "case gather_walls wl (wall_refs c) of
          Inl e \<Rightarrow> False
        | Inr (ls, ps) \<Rightarrow>
            ls \<noteq> [] \<and> (case polygonize ls of [] \<Rightarrow> True | p # _ \<Rightarrow> \<not> is_empty p)"
    by (auto simp: some_cell_has_polygon_def)
  then obtain ls ps where gw: "gather_walls wl (wall_refs c) = Inr (ls, ps)"
    by (cases "gather_walls wl (wall_refs c)") auto
  with x have ne: "ls \<noteq> []"
    and po: "case polygonize ls of [] \<Rightarrow> True | p # _ \<Rightarrow> \<not> is_empty p"
    by simp_all
  from wf c have i: "integer_attr c ''id''" "integer_attr c ''group''"
    by (simp_all add: well_formed_content_def)
  from fb w c gw ne have th: "polygonize ls = [] \<longrightarrow> 3 \<le> length ps"
    by (auto simp: fallback_has_three_points_def)
  have "\<exists>r. reconstruct_cell polygonize gm wl c = Inr (Some r)"
    using i gw ne th po by (rule reconstruct_cell_yields)
  then obtain r where "reconstruct_cell polygonize gm wl c = Inr (Some r)" ..
  from parse_cells_member [OF p c this] have "rs \<noteq> []" by auto
  with g w p show "\<exists>records. get_root_section polygonize (Inr root_elem) = Inr records \<and> records \<noteq> []"
    by (simp add: get_root_section_def GeoDataFrame_with_crs_def)
qed

lemma open_polyline_well_formed:
  "well_formed_content open_polyline_mesh \<and> fallback_has_three_points no_rings open_polyline_mesh
   \<and> some_cell_has_polygon no_rings open_polyline_mesh"
  by (auto simp: open_polyline_mesh_def well_formed_content_def fallback_has_three_points_def
      some_cell_has_polygon_def integer_attr_def point_elems_def has_xy_def numeric_xy_def
      mesh_eval)

theorem parse_failure_is_empty_section_witness:
  "get_root_section no_rings (Inl ParseError) = Inr []
   \<and> \<not> isl (get_root_section no_rings (Inr open_polyline_mesh))
   \<and> projr (get_root_section no_rings (Inr open_polyline_mesh)) \<noteq> []"
  using parse_failure_is_empty_section [of no_rings ParseError open_polyline_mesh]
    open_polyline_well_formed
  by auto

text \<open>
  Claim C3 as stated fails for malformed element content: a group element without an
  \<^verbatim>\<open>id\<close> makes \<^verbatim>\<open>int(None)\<close> raise TypeError, and the exception leaves
  \<^verbatim>\<open>get_root_section\<close>; only \<^verbatim>\<open>ET.parse\<close> stands inside the \<^verbatim>\<open>try\<close>.
\<close>

theorem malformed_content_counterexample:
  "get_root_section no_rings (Inr bad_group_mesh) = Inl TypeError"
  by (simp add: bad_group_mesh_def mesh_eval)

end
